theory Spec2Isabelle
  imports Main "HOL-Library.Sublist" "HOL-Library.Multiset" "HOL-Library.Signed_Division"
begin

section \<open>Data model of the parts editor (notationparts.cpp)\<close>

text \<open>
  The editor \<^verbatim>\<open>NotationParts\<close> works on the score engine's objects (\<^verbatim>\<open>Ms::Score\<close>,
  \<^verbatim>\<open>Ms::Part\<close>, \<^verbatim>\<open>Ms::Staff\<close>, \<^verbatim>\<open>Ms::Instrument\<close>). The model keeps the fields the
  editor reads and writes. Identifiers are \<^verbatim>\<open>QString\<close>s. A \<^verbatim>\<open>Ms::Fraction\<close> key of an instrument
  table is represented by its tick count (\<^verbatim>\<open>Fraction::fromTicks\<close>, \<^verbatim>\<open>Fraction::ticks\<close>), a C++
  \<^verbatim>\<open>int\<close>; where the source adds one to a tick the model returns \<open>SignedOverflow\<close> at
  \<open>INT_MAX\<close>, where the C++ addition is undefined.
\<close>

type_synonym ID = string

datatype MsError = MS_NO_ERROR | NO_NOTE_REST_SELECTED | MS_OTHER_ERROR nat

datatype InsertMode = Before | After

datatype Fault = NullDereference | SignedOverflow | AssertionFailed | IndexOutOfRange

text \<open>
  One record stands for both \<^verbatim>\<open>Ms::Instrument\<close> and the editor's instrument template
  \<^verbatim>\<open>mu::instruments::Instrument\<close>: the identifier, the name and the number of staves are the
  fields \<^verbatim>\<open>InstrumentsConverter::convertInstrument\<close> carries over in both directions.
\<close>

record Instrument =
  instrumentId :: ID
  trackName :: string
  inst_staves :: nat

record StaffType =
  st_small :: bool

text \<open>
  A staff is an object: \<open>staff_ptr\<close> is its address, which tells a clone from its original
  (\<^verbatim>\<open>Staff::clone\<close> keeps the identifier). \<open>staff_part\<close> is \<^verbatim>\<open>Staff::part()\<close>, by the part's
  identifier; \<open>staff_links\<close> names the set of linked staves the staff belongs to, if any;
  \<open>staff_content\<close> stands for the music written on the staff.
\<close>

record Staff =
  staff_ptr :: nat
  staff_id :: ID
  staff_part :: ID
  staff_staffType :: "StaffType option"
  staff_invisible :: bool
  staff_links :: "nat option"
  staff_content :: "nat list"

record Part =
  part_id :: ID
  partName :: string
  part_show :: bool
  part_instruments :: "(int \<times> Instrument) list"
  part_staves :: "Staff list"

record ChordRest =
  cr_part :: ID
  cr_tick :: int
  cr_track :: int

datatype Element =
    ChordRestEl ID int
  | InstrumentChangeEl ID int Instrument bool
  | OtherEl ID

record Segment =
  seg_tick :: int
  seg_elist :: "Element option list"
  seg_annotations :: "Element option list"

record Excerpt =
  ex_parts :: "Part list"
  ex_scoreParts :: "Part list"

record Score =
  parts :: "Part list"
  isMaster :: bool
  excerpts :: "Excerpt list"
  measures :: "int list"
  segments :: "Segment list"
  selection :: "ChordRest option"

datatype Event =
    PrepareChanges
  | CommitChanges
  | PartsListChanged
  | PartItemChanged ID
  | PartsChanged
  | InstrumentItemChanged ID ID
  | InstrumentItemAdded ID ID
  | InstrumentItemReplaced ID ID ID
  | StaffItemChanged ID ID ID
  | StaffItemAdded ID ID ID
  | LogError string

record NotationParts =
  score :: Score
  otherMaster :: Score
  ms_error :: MsError
  events :: "Event list"
  next_ptr :: nat

text \<open>
  \<^verbatim>\<open>score()\<close> is the field \<open>score\<close>. \<^verbatim>\<open>masterScore()\<close> is \<^verbatim>\<open>score()->masterScore()\<close>: the score
  itself when it is a master score, and the master it was derived from otherwise.
\<close>

definition masterScore :: "NotationParts \<Rightarrow> Score" where
  "masterScore np = (if isMaster (score np) then score np else otherMaster np)"

definition emit :: "Event \<Rightarrow> NotationParts \<Rightarrow> NotationParts" where
  "emit e np = np\<lparr>events := events np @ [e]\<rparr>"

definition startEdit :: "NotationParts \<Rightarrow> NotationParts" where
  "startEdit np = emit PrepareChanges np"

definition apply_edit :: "NotationParts \<Rightarrow> NotationParts" where
  "apply_edit np = emit CommitChanges np"

section \<open>Containers\<close>

text \<open>
  \<^verbatim>\<open>std::map<int, Instrument*>\<close> (the instrument table of a part) and \<^verbatim>\<open>QMap<Fraction, T>\<close> are
  ordered maps: an association list in ascending key order with one entry per key.
  \<open>omap_insert\<close> is insert-or-assign (\<^verbatim>\<open>QMap::insert\<close>, \<^verbatim>\<open>InstrumentList::setInstrument\<close>);
  \<^verbatim>\<open>keys()\<close> and \<^verbatim>\<open>values()\<close> are \<open>map fst\<close> and \<open>map snd\<close>.
\<close>

fun omap_insert :: "int \<Rightarrow> 'v \<Rightarrow> (int \<times> 'v) list \<Rightarrow> (int \<times> 'v) list" where
  "omap_insert k v [] = [(k, v)]"
| "omap_insert k v ((k', v') # m) =
     (if k < k' then (k, v) # (k', v') # m
      else if k = k' then (k, v) # m
      else (k', v') # omap_insert k v m)"

text \<open>\<^verbatim>\<open>QList::insert(i, x)\<close>: prepends for \<open>i \<le> 0\<close>, appends for \<open>i \<ge> size\<close>.\<close>

definition insert_at :: "int \<Rightarrow> 'a \<Rightarrow> 'a list \<Rightarrow> 'a list" where
  "insert_at i x xs =
     (if i \<le> 0 then x # xs
      else if int (length xs) \<le> i then xs @ [x]
      else take (nat i) xs @ x # drop (nat i) xs)"

text \<open>\<^verbatim>\<open>QList::indexOf\<close> and the index loops of the source: the first position, or \<open>-1\<close>.\<close>

fun index_of :: "('a \<Rightarrow> bool) \<Rightarrow> 'a list \<Rightarrow> int" where
  "index_of P [] = -1"
| "index_of P (x # xs) =
     (if P x then 0 else (let i = index_of P xs in if i < 0 then -1 else i + 1))"

fun update_first :: "('a \<Rightarrow> bool) \<Rightarrow> ('a \<Rightarrow> 'a) \<Rightarrow> 'a list \<Rightarrow> 'a list" where
  "update_first P f [] = []"
| "update_first P f (x # xs) = (if P x then f x # xs else x # update_first P f xs)"

fun remove_first :: "('a \<Rightarrow> bool) \<Rightarrow> 'a list \<Rightarrow> 'a list" where
  "remove_first P [] = []"
| "remove_first P (x # xs) = (if P x then xs else x # remove_first P xs)"

fun join_names :: "string list \<Rightarrow> string" where
  "join_names [] = []"
| "join_names [x] = x"
| "join_names (x # y # ys) = x @ '' & '' @ join_names (y # ys)"

definition INT_MAX :: int where
  "INT_MAX = 2147483647"

definition VOICES :: int where
  "VOICES = 4"

definition DEFAULT_INSTRUMENT_TICK :: int where
  "DEFAULT_INSTRUMENT_TICK = -1"

section \<open>The score engine's primitives\<close>

text \<open>
  Modelled from the spec: the score engine (\<^verbatim>\<open>libmscore\<close>) is an external collaborator of the
  editor; its sources are not part of the editor. The spec lists what the editor consumes from
  it: the ordered part list, the staff list of each part, the time-indexed instrument table of
  each part, primitives that insert, remove and reorder parts and staves, staff cloning, property
  changes, and lookup by identifier. The definitions of this section give these primitives their
  plain meaning on the data model. The staves of a score are the staves of its parts, in part
  order.
\<close>

definition Score_staves :: "Score \<Rightarrow> Staff list" where
  "Score_staves sc = concat (map part_staves (parts sc))"

definition Score_staff :: "ID \<Rightarrow> Score \<Rightarrow> Staff option" where
  "Score_staff staffId sc = find (\<lambda>s. staff_id s = staffId) (Score_staves sc)"

definition Staff_idx :: "Staff \<Rightarrow> Score \<Rightarrow> int" where
  "Staff_idx st sc = index_of (\<lambda>x. staff_ptr x = staff_ptr st) (Score_staves sc)"

definition Score_staffIdx :: "ID \<Rightarrow> Score \<Rightarrow> int" where
  "Score_staffIdx partId sc =
     int (length (concat (map part_staves (takeWhile (\<lambda>p. part_id p \<noteq> partId) (parts sc)))))"

text \<open>A \<^verbatim>\<open>Staff*\<close> read after the score has changed: the object at that address now.\<close>

definition deref_staff :: "Staff \<Rightarrow> Score \<Rightarrow> Staff" where
  "deref_staff st sc =
     (case find (\<lambda>x. staff_ptr x = staff_ptr st) (Score_staves sc) of
        Some cur \<Rightarrow> cur
      | None \<Rightarrow> st)"

definition mapStaff :: "nat \<Rightarrow> (Staff \<Rightarrow> Staff) \<Rightarrow> Score \<Rightarrow> Score" where
  "mapStaff ptr f sc =
     sc\<lparr>parts := map (\<lambda>p. p\<lparr>part_staves :=
            map (\<lambda>x. if staff_ptr x = ptr then f x else x) (part_staves p)\<rparr>) (parts sc)\<rparr>"

text \<open>
  \<^verbatim>\<open>Part::insertStaff\<close> under \<^verbatim>\<open>Score::undoInsertStaff(staff, ridx)\<close>: the staff goes into its own
  part (\<^verbatim>\<open>staff->part()\<close>) at the part-relative index, at the end when the index is out of range.
\<close>

definition insertStaff_at :: "int \<Rightarrow> Staff \<Rightarrow> Staff list \<Rightarrow> Staff list" where
  "insertStaff_at ridx st xs =
     (if ridx < 0 \<or> int (length xs) < ridx then xs @ [st]
      else take (nat ridx) xs @ st # drop (nat ridx) xs)"

definition undoInsertStaff :: "Staff \<Rightarrow> int \<Rightarrow> Score \<Rightarrow> Score" where
  "undoInsertStaff st ridx sc =
     sc\<lparr>parts := update_first (\<lambda>p. part_id p = staff_part st)
            (\<lambda>p. p\<lparr>part_staves := insertStaff_at ridx st (part_staves p)\<rparr>) (parts sc)\<rparr>"

definition undoRemoveStaff :: "Staff \<Rightarrow> Score \<Rightarrow> Score" where
  "undoRemoveStaff st sc =
     sc\<lparr>parts := map (\<lambda>p. p\<lparr>part_staves :=
            filter (\<lambda>x. staff_ptr x \<noteq> staff_ptr st) (part_staves p)\<rparr>) (parts sc)\<rparr>"

definition Staff_isLinked :: "Staff \<Rightarrow> Score \<Rightarrow> bool" where
  "Staff_isLinked st sc =
     (case staff_links st of
        None \<Rightarrow> False
      | Some g \<Rightarrow> list_ex (\<lambda>x. staff_links x = Some g \<and> staff_ptr x \<noteq> staff_ptr st)
                   (Score_staves sc))"

definition Staff_clone :: "Staff \<Rightarrow> nat \<Rightarrow> Staff" where
  "Staff_clone st ptr = st\<lparr>staff_ptr := ptr, staff_links := None, staff_content := []\<rparr>"

definition undoUnlink :: "Staff \<Rightarrow> Score \<Rightarrow> Score" where
  "undoUnlink st sc = mapStaff (staff_ptr st) (\<lambda>x. x\<lparr>staff_links := None\<rparr>) sc"

definition cmdRemovePart :: "Part option \<Rightarrow> Part list \<Rightarrow> Part list" where
  "cmdRemovePart po ps =
     (case po of None \<Rightarrow> ps | Some prt \<Rightarrow> remove_first (\<lambda>p. part_id p = part_id prt) ps)"

fun insertPart :: "Part \<Rightarrow> int \<Rightarrow> int \<Rightarrow> Part list \<Rightarrow> Part list" where
  "insertPart prt idx staff [] = [prt]"
| "insertPart prt idx staff (p # ps) =
     (if idx \<le> staff then prt # p # ps
      else p # insertPart prt idx (staff + int (length (part_staves p))) ps)"

text \<open>
  The instrument of a part that is active at a tick is the entry with the greatest key at or
  before it; \<^verbatim>\<open>Part::instrument()\<close> reads it, and \<^verbatim>\<open>Part::setInstrument(i)\<close> writes it, at the
  default tick \<open>-1\<close> (the tick the source pairs with \<^verbatim>\<open>part()->instrument()\<close> in
  \<^verbatim>\<open>instrumentInfo(staff)\<close>). \<^verbatim>\<open>Part::removeInstrument(id)\<close> erases the first entry of that
  instrument identifier.
\<close>

definition defaultInstrument :: Instrument where
  "defaultInstrument = \<lparr>instrumentId = [], trackName = [], inst_staves = 1\<rparr>"

definition Part_instrument :: "Part \<Rightarrow> Instrument" where
  "Part_instrument p =
     (case filter (\<lambda>(t, i). t \<le> DEFAULT_INSTRUMENT_TICK) (part_instruments p) of
        [] \<Rightarrow> defaultInstrument
      | e # es \<Rightarrow> snd (last (e # es)))"

definition Part_setInstrument :: "Instrument \<Rightarrow> int \<Rightarrow> Part \<Rightarrow> Part" where
  "Part_setInstrument i tick p = p\<lparr>part_instruments := omap_insert tick i (part_instruments p)\<rparr>"

definition Part_removeInstrument :: "ID \<Rightarrow> Part \<Rightarrow> Part" where
  "Part_removeInstrument iid p =
     p\<lparr>part_instruments := remove_first (\<lambda>(t, i). instrumentId i = iid) (part_instruments p)\<rparr>"

section \<open>Listing parts\<close>

definition scoreParts :: "Score \<Rightarrow> Part list" where
  "scoreParts sc = parts sc"

definition excerptParts :: "Score \<Rightarrow> Part list" where
  "excerptParts sc = (if \<not> isMaster sc then [] else concat (map ex_parts (excerpts sc)))"

definition availableParts :: "Score option \<Rightarrow> Part list" where
  "availableParts sco = (case sco of None \<Rightarrow> [] | Some sc \<Rightarrow> scoreParts sc @ excerptParts sc)"

fun partList_loop :: "Part list \<Rightarrow> Part list \<Rightarrow> ID set \<Rightarrow> Part list" where
  "partList_loop [] result partIds = result"
| "partList_loop (p # ps) result partIds =
     (if part_id p \<in> partIds then partList_loop ps result partIds
      else partList_loop ps (result @ [p]) (insert (part_id p) partIds))"

definition partList :: "NotationParts \<Rightarrow> Part list" where
  "partList np = partList_loop (availableParts (Some (score np))) [] {}"

section \<open>Lookup by identifier\<close>

definition part :: "ID \<Rightarrow> Score option \<Rightarrow> NotationParts \<Rightarrow> Part option" where
  "part partId sco np =
     find (\<lambda>p. part_id p = partId)
       (availableParts (Some (case sco of None \<Rightarrow> score np | Some sc \<Rightarrow> sc)))"

text \<open>
  A write through the \<^verbatim>\<open>Part*\<close> that \<open>part partId None\<close> returned: it reaches the first part
  of that identifier in the order of \<open>availableParts\<close>, a part of the score before a part
  listed by an excerpt. \<open>modifyScorePart\<close> is a write to a part of the score itself
  (\<^verbatim>\<open>chord->part()\<close>, \<^verbatim>\<open>staff->part()\<close>).
\<close>

definition modifyScorePart :: "ID \<Rightarrow> (Part \<Rightarrow> Part) \<Rightarrow> Score \<Rightarrow> Score" where
  "modifyScorePart partId f sc = sc\<lparr>parts := update_first (\<lambda>p. part_id p = partId) f (parts sc)\<rparr>"

fun modifyExcerptPart :: "ID \<Rightarrow> (Part \<Rightarrow> Part) \<Rightarrow> Excerpt list \<Rightarrow> Excerpt list" where
  "modifyExcerptPart partId f [] = []"
| "modifyExcerptPart partId f (e # es) =
     (if list_ex (\<lambda>p. part_id p = partId) (ex_parts e)
      then e\<lparr>ex_parts := update_first (\<lambda>p. part_id p = partId) f (ex_parts e)\<rparr> # es
      else e # modifyExcerptPart partId f es)"

definition modifyPart :: "ID \<Rightarrow> (Part \<Rightarrow> Part) \<Rightarrow> Score \<Rightarrow> Score" where
  "modifyPart partId f sc =
     (if list_ex (\<lambda>p. part_id p = partId) (parts sc) then modifyScorePart partId f sc
      else if isMaster sc then sc\<lparr>excerpts := modifyExcerptPart partId f (excerpts sc)\<rparr>
      else sc)"

definition instruments :: "Part \<Rightarrow> ID list \<Rightarrow> (int \<times> Instrument) list" where
  "instruments fromPart filterInstrumentsIds =
     foldl (\<lambda>result (tick, instrument).
              if (if filterInstrumentsIds \<noteq> []
                  then instrumentId instrument \<in> set filterInstrumentsIds else True)
              then omap_insert tick instrument result else result)
           [] (part_instruments fromPart)"

text \<open>\<^verbatim>\<open>InstrumentInfo\<close>: a tick and an instrument; the invalid value is \<open>None\<close>.\<close>

definition instrumentInfo :: "ID \<Rightarrow> Part option \<Rightarrow> (int \<times> Instrument) option" where
  "instrumentInfo iid fromPart =
     (case fromPart of
        None \<Rightarrow> None
      | Some p \<Rightarrow> find (\<lambda>(fraction, instrument). instrumentId instrument = iid) (instruments p []))"

definition staff :: "ID \<Rightarrow> NotationParts \<Rightarrow> Staff option" where
  "staff staffId np = Score_staff staffId (score np)"

definition Score_staff_at :: "int \<Rightarrow> Score \<Rightarrow> Staff option" where
  "Score_staff_at n sc =
     (if 0 \<le> n \<and> n < int (length (Score_staves sc)) then Some (Score_staves sc ! nat n) else None)"

definition staves_of_part :: "Part \<Rightarrow> ID \<Rightarrow> Staff list" where
  "staves_of_part prt iid = part_staves prt"

definition staves :: "ID list \<Rightarrow> NotationParts \<Rightarrow> Staff list" where
  "staves stavesIds np =
     concat (map (\<lambda>staffId. case staff staffId np of Some st \<Rightarrow> [st] | None \<Rightarrow> []) stavesIds)"

definition formatPartName :: "Part \<Rightarrow> string" where
  "formatPartName prt = join_names (map (\<lambda>(t, i). trackName i) (instruments prt []))"

text \<open>
  \<^verbatim>\<open>doSetPartName\<close> pushes the engine's \<^verbatim>\<open>ChangePart\<close> command with a copy of the part's own
  instrument and the new name: the part is renamed.
\<close>

definition doSetPartName :: "ID \<Rightarrow> string \<Rightarrow> NotationParts \<Rightarrow> NotationParts" where
  "doSetPartName partId nm np = np\<lparr>score := modifyPart partId (\<lambda>p. p\<lparr>partName := nm\<rparr>) (score np)\<rparr>"

section \<open>Elements of the score: chords, rests and instrument changes\<close>

fun Element_part :: "Element \<Rightarrow> ID" where
  "Element_part (ChordRestEl pid track) = pid"
| "Element_part (InstrumentChangeEl pid track instrument init) = pid"
| "Element_part (OtherEl pid) = pid"

fun Element_instrument :: "Element \<Rightarrow> Instrument" where
  "Element_instrument (InstrumentChangeEl pid track instrument init) = instrument"
| "Element_instrument _ = defaultInstrument"

definition instrumentChangeElements :: "ID \<Rightarrow> NotationParts \<Rightarrow> (int \<times> Element) list" where
  "instrumentChangeElements partId np =
     foldl (\<lambda>result seg.
        foldl (\<lambda>result element.
                 case element of
                   None \<Rightarrow> result
                 | Some e \<Rightarrow>
                     if Element_part e \<noteq> partId then result
                     else (case e of
                             InstrumentChangeEl pid track instrument init \<Rightarrow>
                               omap_insert (seg_tick seg) e result
                           | _ \<Rightarrow> result))
              result (seg_annotations seg))
       [] (segments (score np))"

fun chordRest_in :: "ID \<Rightarrow> Element option list \<Rightarrow> int option" where
  "chordRest_in partId [] = None"
| "chordRest_in partId (None # es) = chordRest_in partId es"
| "chordRest_in partId (Some (ChordRestEl pid track) # es) =
     (if pid \<noteq> partId then chordRest_in partId es else Some track)"
| "chordRest_in partId (Some e # es) = chordRest_in partId es"

fun chordRest_loop :: "int \<Rightarrow> ID \<Rightarrow> Segment list \<Rightarrow> ChordRest option" where
  "chordRest_loop fraction partId [] = None"
| "chordRest_loop fraction partId (seg # segs) =
     (case (if seg_tick seg = fraction then chordRest_in partId (seg_elist seg) else None) of
        Some track \<Rightarrow> Some \<lparr>cr_part = partId, cr_tick = seg_tick seg, cr_track = track\<rparr>
      | None \<Rightarrow> chordRest_loop fraction partId segs)"

definition chordRest :: "int \<Rightarrow> Part \<Rightarrow> NotationParts \<Rightarrow> ChordRest option" where
  "chordRest fraction fromPart np = chordRest_loop fraction (part_id fromPart) (segments (score np))"

text \<open>
  \<^verbatim>\<open>Score::undoAddElement\<close> puts an instrument change among the annotations of its parent
  segment; \<^verbatim>\<open>Score::undoRemoveElement\<close> takes the element out of its segment. An element found
  through \<open>instrumentChangeElements\<close> is the last one of its tick in the order of traversal.
\<close>

definition undoAddElement :: "int \<Rightarrow> Element \<Rightarrow> Score \<Rightarrow> Score" where
  "undoAddElement tick e sc =
     sc\<lparr>segments := update_first (\<lambda>seg. seg_tick seg = tick)
            (\<lambda>seg. seg\<lparr>seg_annotations := seg_annotations seg @ [Some e]\<rparr>) (segments sc)\<rparr>"

definition remove_last :: "'a \<Rightarrow> 'a list \<Rightarrow> 'a list" where
  "remove_last x xs = rev (remove1 x (rev xs))"

definition undoRemoveElement :: "int \<Rightarrow> Element \<Rightarrow> Score \<Rightarrow> Score" where
  "undoRemoveElement tick e sc =
     sc\<lparr>segments := rev (update_first
            (\<lambda>seg. seg_tick seg = tick \<and> Some e \<in> set (seg_annotations seg))
            (\<lambda>seg. seg\<lparr>seg_annotations := remove_last (Some e) (seg_annotations seg)\<rparr>)
            (rev (segments sc)))\<rparr>"

section \<open>The selection query and the global error flag\<close>

text \<open>
  Modelled from the spec: \<^verbatim>\<open>Ms::Score::getSelectedChordRest\<close> is the score engine's and is not
  part of the editor. It returns the selected chord or rest; with no such selection it returns
  null and sets the score-wide error flag \<^verbatim>\<open>MScore::_error\<close> to \<open>NO_NOTE_REST_SELECTED\<close>.
\<close>

definition getSelectedChordRest :: "NotationParts \<Rightarrow> ChordRest option \<times> NotationParts" where
  "getSelectedChordRest np =
     (case selection (score np) of
        Some c \<Rightarrow> (Some c, np)
      | None \<Rightarrow> (None, np\<lparr>ms_error := NO_NOTE_REST_SELECTED\<rparr>))"

definition selectedChord :: "NotationParts \<Rightarrow> ChordRest option \<times> NotationParts" where
  "selectedChord np =
     (let (chord, np1) = getSelectedChordRest np;
          np2 = (if ms_error np1 = NO_NOTE_REST_SELECTED
                 then np1\<lparr>ms_error := MS_NO_ERROR\<rparr> else np1)
      in (chord, np2))"


section \<open>Instrument visibility and assignment to the selected chord\<close>

definition needAssignInstrumentToChord :: "ID \<Rightarrow> ID \<Rightarrow> NotationParts \<Rightarrow> bool" where
  "needAssignInstrumentToChord iid fromPartId np =
     (case part fromPartId None np of
        None \<Rightarrow> False
      | Some prt \<Rightarrow>
          if instrumentId (Part_instrument prt) = iid then False
          else \<not> list_ex (\<lambda>(tick, instrumentChange).
                              instrumentId (Element_instrument instrumentChange) = iid)
                         (instrumentChangeElements fromPartId np))"

definition resolveCanChangeInstrumentVisibility ::
    "ID \<Rightarrow> ID \<Rightarrow> NotationParts \<Rightarrow> bool \<times> NotationParts" where
  "resolveCanChangeInstrumentVisibility iid fromPartId np =
     (if \<not> needAssignInstrumentToChord iid fromPartId np then (True, np)
      else (let (chord, np1) = selectedChord np
            in ((case chord of None \<Rightarrow> False | Some c \<Rightarrow> cr_part c = fromPartId), np1)))"

definition assignIstrumentToSelectedChord :: "Instrument \<Rightarrow> NotationParts \<Rightarrow> NotationParts" where
  "assignIstrumentToSelectedChord instrument np =
     (let (chord, np1) = selectedChord np
      in case chord of
           None \<Rightarrow> np1
         | Some c \<Rightarrow>
             (let np2 = startEdit np1;
                  sc1 = modifyScorePart (cr_part c)
                          (Part_removeInstrument (instrumentId instrument)) (score np2);
                  sc2 = modifyScorePart (cr_part c)
                          (Part_setInstrument instrument (cr_tick c)) sc1;
                  instrumentChange =
                    InstrumentChangeEl (cr_part c) ((cr_track c sdiv VOICES) * VOICES)
                      instrument True;
                  sc3 = undoAddElement (cr_tick c) instrumentChange sc2;
                  np3 = apply_edit (np2\<lparr>score := sc3\<rparr>);
                  np4 = emit (InstrumentItemChanged (cr_part c) (instrumentId instrument)) np3
              in emit PartsChanged np4))"

definition doSetStaffVisible :: "Staff option \<Rightarrow> bool \<Rightarrow> NotationParts \<Rightarrow> NotationParts" where
  "doSetStaffVisible sto visible np =
     (case sto of
        None \<Rightarrow> np
      | Some st \<Rightarrow>
          np\<lparr>score := mapStaff (staff_ptr st) (\<lambda>x. x\<lparr>staff_invisible := \<not> visible\<rparr>) (score np)\<rparr>)"

definition setInstrumentVisible :: "ID \<Rightarrow> ID \<Rightarrow> bool \<Rightarrow> NotationParts \<Rightarrow> NotationParts" where
  "setInstrumentVisible iid fromPartId visible np =
     (case part fromPartId None np of
        None \<Rightarrow> np
      | Some prt \<Rightarrow>
          if part_show prt = visible then np
          else (case instrumentInfo iid (Some prt) of
                  None \<Rightarrow> np
                | Some (fraction, instrument) \<Rightarrow>
                    if needAssignInstrumentToChord iid fromPartId np
                    then assignIstrumentToSelectedChord instrument np
                    else (let np1 = startEdit np;
                              np2 = foldl (\<lambda>n st.
                                      doSetStaffVisible
                                        (Score_staff_at (Staff_idx st (score n)) (score n)) visible n)
                                    np1 (staves_of_part prt iid);
                              np3 = apply_edit np2;
                              np4 = emit (InstrumentItemChanged fromPartId (instrumentId instrument)) np3
                          in emit PartsChanged np4)))"

section \<open>Appending a doubling instrument\<close>

definition deref_part :: "Part \<Rightarrow> NotationParts \<Rightarrow> Part" where
  "deref_part prt np = (case part (part_id prt) None np of Some cur \<Rightarrow> cur | None \<Rightarrow> prt)"

definition appendDoublingInstrument ::
    "Instrument \<Rightarrow> ID \<Rightarrow> NotationParts \<Rightarrow> Fault + NotationParts" where
  "appendDoublingInstrument instrument destinationPartId np =
     (case part destinationPartId None np of
        None \<Rightarrow> Inr np
      | Some prt \<Rightarrow>
          (let lastTick = foldl (\<lambda>lastTick fraction. max fraction lastTick) 1
                            (map fst (instruments prt []))
           in if lastTick = INT_MAX then Inl SignedOverflow
              else (let np1 = startEdit np;
                        np2 = np1\<lparr>score := modifyPart destinationPartId
                                 (Part_setInstrument instrument (lastTick + 1)) (score np1)\<rparr>;
                        np3 = doSetPartName destinationPartId
                                (formatPartName (deref_part prt np2)) np2;
                        np4 = apply_edit np3;
                        np5 = emit (InstrumentItemAdded destinationPartId (instrumentId instrument)) np4;
                        np6 = emit (PartItemChanged (part_id prt)) np5
                    in Inr (emit PartsChanged np6))))"

section \<open>Staff attributes\<close>

definition notifyAboutStaffChanged :: "ID \<Rightarrow> NotationParts \<Rightarrow> Fault + NotationParts" where
  "notifyAboutStaffChanged staffId np =
     (case staff staffId np of
        None \<Rightarrow> Inr np
      | Some st \<Rightarrow>
          (case find (\<lambda>p. part_id p = staff_part st) (parts (score np)) of
             None \<Rightarrow> Inl NullDereference
           | Some prt \<Rightarrow>
               Inr (emit (StaffItemChanged (part_id prt) (instrumentId (Part_instrument prt))
                            staffId) np)))"

definition setSmallStaff :: "ID \<Rightarrow> bool \<Rightarrow> NotationParts \<Rightarrow> Fault + NotationParts" where
  "setSmallStaff staffId smallStaff np =
     (case staff staffId np of
        None \<Rightarrow> Inl NullDereference
      | Some st \<Rightarrow>
          (case staff_staffType st of
             None \<Rightarrow> Inr np
           | Some staffType \<Rightarrow>
               (let np1 = startEdit np;
                    np2 = np1\<lparr>score := mapStaff (staff_ptr st)
                             (\<lambda>x. x\<lparr>staff_staffType := Some (staffType\<lparr>st_small := smallStaff\<rparr>)\<rparr>)
                             (score np1)\<rparr>;
                    np3 = apply_edit np2
                in case notifyAboutStaffChanged staffId np3 of
                     Inl fault \<Rightarrow> Inl fault
                   | Inr np4 \<Rightarrow> Inr (emit PartsChanged np4))))"


section \<open>Moving staves and parts\<close>

text \<open>
  \<^verbatim>\<open>Excerpt::cloneStaff(src, dst)\<close> copies the music of the source staff onto the destination
  staff and links the two staves; \<^verbatim>\<open>Staff::clone\<close> copies the staff object without its music
  and its links.
\<close>

definition cloneStaff :: "Staff \<Rightarrow> Staff \<Rightarrow> NotationParts \<Rightarrow> NotationParts" where
  "cloneStaff src dst np =
     (let s = deref_staff src (score np)
      in case staff_links s of
           Some g \<Rightarrow>
             np\<lparr>score := mapStaff (staff_ptr dst)
                    (\<lambda>x. x\<lparr>staff_content := staff_content s, staff_links := Some g\<rparr>) (score np)\<rparr>
         | None \<Rightarrow>
             (let g = next_ptr np
              in np\<lparr>next_ptr := g + 1,
                    score := mapStaff (staff_ptr dst)
                      (\<lambda>x. x\<lparr>staff_content := staff_content s, staff_links := Some g\<rparr>)
                      (mapStaff (staff_ptr src) (\<lambda>x. x\<lparr>staff_links := Some g\<rparr>) (score np))\<rparr>))"

fun doMoveStaves_clone ::
    "Staff list \<Rightarrow> int \<Rightarrow> ID option \<Rightarrow> NotationParts \<Rightarrow> NotationParts" where
  "doMoveStaves_clone [] destinationStaffIndex destinationPart np = np"
| "doMoveStaves_clone (st # rest) destinationStaffIndex destinationPart np =
     (let cur = deref_staff st (score np);
          cloned = Staff_clone cur (next_ptr np);
          movedStaff = (case destinationPart of
                          Some partId \<Rightarrow> cloned\<lparr>staff_part := partId\<rparr>
                        | None \<Rightarrow> cloned);
          needUnlink = (\<not> Staff_isLinked cur (score np));
          np1 = np\<lparr>next_ptr := next_ptr np + 1,
                   score := undoInsertStaff movedStaff destinationStaffIndex (score np)\<rparr>;
          np2 = cloneStaff cur movedStaff np1;
          np3 = (if needUnlink then np2\<lparr>score := undoUnlink movedStaff (score np2)\<rparr> else np2)
      in doMoveStaves_clone rest (destinationStaffIndex + 1) destinationPart np3)"

definition doMoveStaves ::
    "Staff list \<Rightarrow> int \<Rightarrow> ID option \<Rightarrow> NotationParts \<Rightarrow> NotationParts" where
  "doMoveStaves stvs destinationStaffIndex destinationPart np =
     (let np1 = doMoveStaves_clone stvs destinationStaffIndex destinationPart np
      in np1\<lparr>score := foldl (\<lambda>sc st. undoRemoveStaff st sc) (score np1) stvs\<rparr>)"

definition moveStaves :: "ID list \<Rightarrow> ID \<Rightarrow> InsertMode \<Rightarrow> NotationParts \<Rightarrow> NotationParts" where
  "moveStaves sourceStavesIds destinationStaffId mode np =
     (if sourceStavesIds = [] then np
      else case staff destinationStaffId np of
             None \<Rightarrow> np
           | Some destinationStaff \<Rightarrow>
               (let stvs = staves sourceStavesIds np;
                    destinationPart = staff_part destinationStaff;
                    idx = (if mode = Before then Staff_idx destinationStaff (score np)
                           else Staff_idx destinationStaff (score np) + 1);
                    destinationStaffIndex = idx - Score_staffIdx destinationPart (score np);
                    np1 = startEdit np;
                    np2 = doMoveStaves stvs destinationStaffIndex (Some destinationPart) np1;
                    np3 = apply_edit np2
                in emit PartsChanged np3))"

text \<open>
  \<^verbatim>\<open>doMovePart\<close>: \<^verbatim>\<open>Score::undoRemovePart\<close> takes the part out of the part list,
  \<^verbatim>\<open>parts().insert\<close> puts it back next to the destination part, and the staves of the part are
  replaced by clones.
\<close>

definition doMovePart :: "ID \<Rightarrow> ID \<Rightarrow> InsertMode \<Rightarrow> NotationParts \<Rightarrow> NotationParts" where
  "doMovePart sourcePartId destinationPartId mode np =
     (case (part sourcePartId None np, part destinationPartId None np) of
        (Some prt, Some destinationPart) \<Rightarrow>
          (let partIsBefore = (Score_staffIdx (part_id prt) (score np)
                                 < Score_staffIdx (part_id destinationPart) (score np));
               stvs = part_staves prt;
               destinationStaffIndex = (if partIsBefore then int (length stvs) else 0);
               ps1 = remove_first (\<lambda>p. part_id p = part_id prt) (parts (score np));
               toPartIndex = index_of (\<lambda>p. part_id p = part_id destinationPart) ps1;
               newPartIndex = (if mode = Before then toPartIndex else toPartIndex + 1);
               np1 = np\<lparr>score := (score np)\<lparr>parts := insert_at newPartIndex prt ps1\<rparr>\<rparr>;
               instrs = part_instruments prt;
               np2 = doMoveStaves stvs destinationStaffIndex None np1
           in np2\<lparr>score := modifyPart (part_id prt) (\<lambda>p. p\<lparr>part_instruments := instrs\<rparr>)
                                (score np2)\<rparr>)
      | _ \<Rightarrow> np)"

definition moveParts :: "ID list \<Rightarrow> ID \<Rightarrow> InsertMode \<Rightarrow> NotationParts \<Rightarrow> NotationParts" where
  "moveParts sourcePartsIds destinationPartId mode np =
     (let np1 = startEdit np;
          np2 = foldl (\<lambda>n sourcePartId. doMovePart sourcePartId destinationPartId mode n)
                  np1 sourcePartsIds;
          np3 = apply_edit np2
      in emit PartsChanged np3)"


section \<open>Showing a part of the master score\<close>

definition resolvePartIndex :: "Part \<Rightarrow> NotationParts \<Rightarrow> int" where
  "resolvePartIndex prt np =
     (let findMasterPartIndex =
            (\<lambda>partId. index_of (\<lambda>p. part_id p = partId) (parts (masterScore np)));
          scoreParts = parts (score np);
          originPartIndex = findMasterPartIndex (part_id prt)
      in case find (\<lambda>scorePart. \<not> findMasterPartIndex (part_id scorePart) < originPartIndex)
                scoreParts of
           Some destinationPart \<Rightarrow> index_of (\<lambda>p. part_id p = part_id destinationPart) scoreParts
         | None \<Rightarrow> int (length scoreParts))"

text \<open>
  \<^verbatim>\<open>Excerpt::cloneStaff2(src, dst, startTick, endTick)\<close> is the engine's: the music it puts on the
  destination staff is the parameter \<open>cloneStaff2\<close>, a function of the music of the source staff
  and of the two ticks. \<^verbatim>\<open>firstMeasure()\<close> and \<^verbatim>\<open>lastMeasure()\<close> are null in a score without
  measures.
\<close>

fun appendPart_staves ::
    "(nat list \<Rightarrow> int \<Rightarrow> int \<Rightarrow> nat list) \<Rightarrow> ID \<Rightarrow> int \<Rightarrow> Staff list \<Rightarrow> NotationParts
      \<Rightarrow> Fault + NotationParts" where
  "appendPart_staves cloneStaff2 partCopyId staffIndex [] np = Inr np"
| "appendPart_staves cloneStaff2 partCopyId staffIndex (st # rest) np =
     (let staffCopy = st\<lparr>staff_ptr := next_ptr np, staff_part := partCopyId,
                         staff_links := None, staff_content := []\<rparr>;
          np1 = np\<lparr>next_ptr := next_ptr np + 1,
                   score := undoInsertStaff staffCopy staffIndex (score np)\<rparr>
      in case measures (score np1) of
           [] \<Rightarrow> Inl NullDereference
         | m # ms \<Rightarrow>
             (let startTick = m;
                  endTick = last (m # ms);
                  np2 = np1\<lparr>score := mapStaff (staff_ptr staffCopy)
                           (\<lambda>x. x\<lparr>staff_content := cloneStaff2 (staff_content st) startTick endTick\<rparr>)
                           (score np1)\<rparr>
              in appendPart_staves cloneStaff2 partCopyId (staffIndex + 1) rest np2))"

definition appendPart ::
    "(nat list \<Rightarrow> int \<Rightarrow> int \<Rightarrow> nat list) \<Rightarrow> Part \<Rightarrow> NotationParts \<Rightarrow> Fault + NotationParts" where
  "appendPart cloneStaff2 prt np =
     (let np1 = startEdit np;
          partCopy = prt\<lparr>part_staves := []\<rparr>;
          partIndex = resolvePartIndex prt np1;
          np2 = np1\<lparr>score := (score np1)\<lparr>parts := insert_at partIndex partCopy (parts (score np1))\<rparr>\<rparr>
      in case appendPart_staves cloneStaff2 (part_id partCopy) 0 (part_staves prt) np2 of
           Inl fault \<Rightarrow> Inl fault
         | Inr np3 \<Rightarrow>
             (let np4 = apply_edit np3;
                  np5 = emit (PartItemChanged (part_id prt)) np4
              in Inr (emit PartsChanged np5)))"

definition setPartVisible ::
    "(nat list \<Rightarrow> int \<Rightarrow> int \<Rightarrow> nat list) \<Rightarrow> ID \<Rightarrow> bool \<Rightarrow> NotationParts
      \<Rightarrow> Fault + NotationParts" where
  "setPartVisible cloneStaff2 partId visible np =
     (case part partId None np of
        Some prt \<Rightarrow>
          if part_show prt = visible then Inr np
          else (let np1 = startEdit np;
                    np2 = np1\<lparr>score := modifyPart partId (\<lambda>p. p\<lparr>part_show := visible\<rparr>) (score np1)\<rparr>;
                    np3 = apply_edit np2;
                    np4 = emit (PartItemChanged (part_id prt)) np3
                in Inr (emit PartsChanged np4))
      | None \<Rightarrow>
          if \<not> visible then Inr np
          else (case part partId (Some (masterScore np)) np of
                  None \<Rightarrow> Inr np
                | Some prt \<Rightarrow> appendPart cloneStaff2 prt np))"

section \<open>Moving instruments between parts\<close>

definition doRemoveInstruments :: "ID list \<Rightarrow> ID \<Rightarrow> NotationParts \<Rightarrow> NotationParts" where
  "doRemoveInstruments instrumentIds fromPartId np =
     (let instrumentChanges = instrumentChangeElements fromPartId np
      in foldl (\<lambda>n iid.
                  case instrumentInfo iid (part fromPartId None n) of
                    None \<Rightarrow> n
                  | Some (fraction, instrument) \<Rightarrow>
                      (let n1 = (case map_of instrumentChanges fraction of
                                   Some instrumentChange \<Rightarrow>
                                     n\<lparr>score := undoRemoveElement fraction instrumentChange (score n)\<rparr>
                                 | None \<Rightarrow> n)
                       in n1\<lparr>score := modifyPart fromPartId (Part_removeInstrument iid) (score n1)\<rparr>))
               np instrumentIds)"

fun insertFractions :: "int list \<Rightarrow> int list \<Rightarrow> Fault + int list" where
  "insertFractions [] partInstrumentsFractions = Inr partInstrumentsFractions"
| "insertFractions (fraction # rest) partInstrumentsFractions =
     (if fraction \<in> set partInstrumentsFractions
      then (if last partInstrumentsFractions = INT_MAX then Inl SignedOverflow
            else insertFractions rest
                   (partInstrumentsFractions @ [last partInstrumentsFractions + 1]))
      else insertFractions rest (partInstrumentsFractions @ [fraction]))"

fun insertInstruments :: "Instrument list \<Rightarrow> int \<Rightarrow> Instrument list \<Rightarrow> Instrument list" where
  "insertInstruments [] newInstrumentIndex partInstruments = partInstruments"
| "insertInstruments (instrument # rest) newInstrumentIndex partInstruments =
     insertInstruments rest (newInstrumentIndex + 1)
       (insert_at newInstrumentIndex instrument partInstruments)"

text \<open>
  \<^verbatim>\<open>InstrumentChange::setupInstrument\<close> gives an initialised instrument change element the
  instrument it is set up with.
\<close>

fun setupInstrument :: "Instrument \<Rightarrow> Element \<Rightarrow> Element" where
  "setupInstrument instrument (InstrumentChangeEl pid track old init) =
     InstrumentChangeEl pid track (if init then instrument else old) init"
| "setupInstrument instrument e = e"

definition anchorInstrument ::
    "ID \<Rightarrow> (int \<times> Element) list \<Rightarrow> NotationParts \<Rightarrow> Instrument \<times> int \<Rightarrow> NotationParts" where
  "anchorInstrument destinationPartId instrumentChanges np entry =
     (case entry of (instrument, fraction) \<Rightarrow>
        (let (instrumentChange, np1) =
               (case map_of instrumentChanges fraction of
                  Some existing \<Rightarrow>
                    (Some existing, np\<lparr>score := undoRemoveElement fraction existing (score np)\<rparr>)
                | None \<Rightarrow>
                    (case chordRest_loop fraction destinationPartId (segments (score np)) of
                       Some chord \<Rightarrow>
                         (Some (InstrumentChangeEl destinationPartId
                                  ((cr_track chord sdiv VOICES) * VOICES) instrument True), np)
                     | None \<Rightarrow> (None, emit (LogError ''Not found chord rest for instrument'') np)));
             np2 = np1\<lparr>score := modifyPart destinationPartId
                      (Part_setInstrument instrument fraction) (score np1)\<rparr>
         in case instrumentChange of
              None \<Rightarrow> np2
            | Some e \<Rightarrow> np2\<lparr>score := undoAddElement fraction (setupInstrument instrument e) (score np2)\<rparr>))"

definition doInsertInstruments ::
    "(int \<times> Instrument) list \<Rightarrow> ID \<Rightarrow> ID \<Rightarrow> InsertMode \<Rightarrow> NotationParts \<Rightarrow> Fault + NotationParts" where
  "doInsertInstruments instrs destinationPartId destinationInstrumentId mode np =
     (case part destinationPartId None np of
        None \<Rightarrow> Inr np
      | Some destinationPart \<Rightarrow>
          (let partInstrumentsMap = instruments destinationPart [];
               found = index_of (\<lambda>i. instrumentId i = destinationInstrumentId)
                         (map snd partInstrumentsMap);
               destinationIndex = (if found < 0 then 0 else found);
               newInstrumentIndex = (if mode = Before then destinationIndex else destinationIndex + 1);
               partInstruments = insertInstruments (map snd instrs) newInstrumentIndex
                                   (map snd partInstrumentsMap)
           in case insertFractions (map fst instrs) (map fst partInstrumentsMap) of
                Inl fault \<Rightarrow> Inl fault
              | Inr unsorted \<Rightarrow>
                  (let partInstrumentsFractions = sort unsorted;
                       np1 = (if partInstrumentsFractions \<noteq> []
                              then np\<lparr>score := modifyPart destinationPartId
                                        (Part_setInstrument (hd partInstruments) DEFAULT_INSTRUMENT_TICK)
                                        (score np)\<rparr>
                              else np);
                       instrumentChanges = instrumentChangeElements destinationPartId np1;
                       np2 = foldl (anchorInstrument destinationPartId instrumentChanges) np1
                               (zip (tl partInstruments) (tl partInstrumentsFractions))
                   in Inr (doSetPartName destinationPartId
                             (formatPartName (deref_part destinationPart np2)) np2))))"


definition notifyAboutInstrumentsChanged :: "ID \<Rightarrow> NotationParts \<Rightarrow> NotationParts" where
  "notifyAboutInstrumentsChanged partId np =
     (case part partId None np of
        None \<Rightarrow> np
      | Some prt \<Rightarrow>
          foldl (\<lambda>n (tick, instrument). emit (InstrumentItemChanged partId (instrumentId instrument)) n)
            np (instruments prt []))"

definition moveInstruments ::
    "ID list \<Rightarrow> ID \<Rightarrow> ID \<Rightarrow> ID \<Rightarrow> InsertMode \<Rightarrow> NotationParts \<Rightarrow> Fault + NotationParts" where
  "moveInstruments sourceInstrumentsIds sourcePartId destinationPartId destinationInstrumentId
       mode np =
     (case (part sourcePartId None np, part destinationPartId None np) of
        (Some fromPart, Some toPart) \<Rightarrow>
          (let movingInstruments = instruments fromPart sourceInstrumentsIds;
               np1 = startEdit np;
               np2 = doRemoveInstruments sourceInstrumentsIds (part_id fromPart) np1
           in case doInsertInstruments movingInstruments destinationPartId
                     destinationInstrumentId mode np2 of
                Inl fault \<Rightarrow> Inl fault
              | Inr np3 \<Rightarrow>
                  (let np4 = doSetPartName (part_id fromPart)
                               (formatPartName (deref_part fromPart np3)) np3;
                       np5 = (if part_id fromPart \<noteq> part_id toPart
                              then doSetPartName (part_id toPart)
                                     (formatPartName (deref_part toPart np4)) np4
                              else np4);
                       np6 = apply_edit np5;
                       np7 = emit (PartItemChanged (part_id fromPart)) np6;
                       np8 = notifyAboutInstrumentsChanged (part_id fromPart) np7;
                       np9 = (if part_id fromPart \<noteq> part_id toPart
                              then emit (PartItemChanged (part_id toPart))
                                     (notifyAboutInstrumentsChanged (part_id toPart) np8)
                              else np8)
                   in Inr (emit PartsChanged np9)))
      | _ \<Rightarrow> Inr np)"

section \<open>Replacing the full instrument set\<close>

definition doRemoveParts :: "ID list \<Rightarrow> NotationParts \<Rightarrow> NotationParts" where
  "doRemoveParts partsIds np =
     foldl (\<lambda>n partId.
              (let sc = score n;
                   sc1 = sc\<lparr>parts := cmdRemovePart (part partId None n) (parts sc)\<rparr>
               in if \<not> isMaster sc1 then n\<lparr>score := sc1\<rparr>
                  else n\<lparr>score := sc1\<lparr>excerpts :=
                         map (\<lambda>e. e\<lparr>ex_scoreParts :=
                                cmdRemovePart (find (\<lambda>p. part_id p = partId) (ex_scoreParts e))
                                  (ex_scoreParts e)\<rparr>)
                             (excerpts sc1)\<rparr>\<rparr>))
           np partsIds"

definition removeMissingInstruments :: "ID list \<Rightarrow> NotationParts \<Rightarrow> NotationParts" where
  "removeMissingInstruments newInstrumentIds np =
     (let (np1, partsToRemove) =
            foldl (\<lambda>(n, partsToRemove) prt.
                     (let partInstruments = instruments prt [];
                          instrumentsToRemove =
                            map (\<lambda>(tick, instrument). instrumentId instrument)
                              (filter (\<lambda>(tick, instrument).
                                         instrumentId instrument \<notin> set newInstrumentIds)
                                 partInstruments);
                          removeAllInstruments =
                            (length instrumentsToRemove = length partInstruments)
                      in if removeAllInstruments then (n, partsToRemove @ [part_id prt])
                         else (doRemoveInstruments instrumentsToRemove (part_id prt) n,
                               partsToRemove)))
                  (np, []) (partList np)
      in doRemoveParts partsToRemove np1)"

definition allInstrumentsIds :: "NotationParts \<Rightarrow> ID list" where
  "allInstrumentsIds np =
     concat (map (\<lambda>prt. map (\<lambda>(tick, instrument). instrumentId instrument) (instruments prt []))
               (partList np))"

definition lastStaffIndex :: "NotationParts \<Rightarrow> int" where
  "lastStaffIndex np =
     (if Score_staves (score np) \<noteq> [] then Staff_idx (last (Score_staves (score np))) (score np)
      else 0)"

text \<open>
  \<^verbatim>\<open>new Part(score())\<close> and \<^verbatim>\<open>new Staff(score())\<close> make objects with identifiers of their own: the
  parameter \<open>makeId\<close> gives the identifier of the object made at an address. Of the layout
  attributes that \<^verbatim>\<open>initStaff\<close> takes from the instrument template the model keeps the staff
  type, not small.
\<close>

fun appendStaves ::
    "(nat \<Rightarrow> ID) \<Rightarrow> ID \<Rightarrow> int \<Rightarrow> nat \<Rightarrow> NotationParts \<Rightarrow> NotationParts" where
  "appendStaves makeId partId staffIndex 0 np = np"
| "appendStaves makeId partId staffIndex (Suc remaining) np =
     (let st = \<lparr>staff_ptr = next_ptr np, staff_id = makeId (next_ptr np), staff_part = partId,
                 staff_staffType = Some \<lparr>st_small = False\<rparr>, staff_invisible = False,
                 staff_links = None, staff_content = []\<rparr>;
          np1 = np\<lparr>next_ptr := next_ptr np + 1,
                   score := undoInsertStaff st staffIndex (score np)\<rparr>
      in appendStaves makeId partId (staffIndex + 1) remaining np1)"

definition createPart :: "(nat \<Rightarrow> ID) \<Rightarrow> Instrument \<Rightarrow> NotationParts \<Rightarrow> NotationParts" where
  "createPart makeId instrument np =
     (let prt = \<lparr>part_id = makeId (next_ptr np), partName = trackName instrument,
                  part_show = True,
                  part_instruments = omap_insert DEFAULT_INSTRUMENT_TICK instrument
                                       [(DEFAULT_INSTRUMENT_TICK, defaultInstrument)],
                  part_staves = []\<rparr>;
          np1 = np\<lparr>next_ptr := next_ptr np + 1,
                   score := (score np)\<lparr>parts := insertPart prt (lastStaffIndex np) 0
                                                  (parts (score np))\<rparr>\<rparr>
      in appendStaves makeId (part_id prt) 0 (inst_staves instrument) np1)"

fun sortParts_loop :: "ID list \<Rightarrow> nat \<Rightarrow> NotationParts \<Rightarrow> Fault + NotationParts" where
  "sortParts_loop [] i np = Inr np"
| "sortParts_loop (iid # rest) i np =
     (if length (parts (score np)) \<le> i then Inl IndexOutOfRange
      else (let currentPart = parts (score np) ! i
            in if instrumentId (Part_instrument currentPart) = iid
               then sortParts_loop rest (i + 1) np
               else (case find (\<lambda>p. instrumentId (Part_instrument p) = iid)
                            (drop i (parts (score np))) of
                       None \<Rightarrow> sortParts_loop rest (i + 1) np
                     | Some prt \<Rightarrow>
                         sortParts_loop rest (i + 1)
                           (doMovePart (part_id prt) (part_id currentPart) Before np))))"

definition sortParts :: "ID list \<Rightarrow> NotationParts \<Rightarrow> Fault + NotationParts" where
  "sortParts instrumentIds np =
     (if length (parts (score np)) \<noteq> length instrumentIds then Inl AssertionFailed
      else sortParts_loop instrumentIds 0 np)"

definition set_masterScore :: "(Score \<Rightarrow> Score) \<Rightarrow> NotationParts \<Rightarrow> NotationParts" where
  "set_masterScore f np =
     (if isMaster (score np) then np\<lparr>score := f (score np)\<rparr>
      else np\<lparr>otherMaster := f (otherMaster np)\<rparr>)"

definition removeEmptyExcerpts :: "NotationParts \<Rightarrow> NotationParts" where
  "removeEmptyExcerpts np =
     set_masterScore
       (\<lambda>m. m\<lparr>excerpts := filter (\<lambda>e. concat (map part_staves (ex_scoreParts e)) \<noteq> [])
                              (excerpts m)\<rparr>) np"

definition createMissingParts ::
    "(nat \<Rightarrow> ID) \<Rightarrow> Instrument list \<Rightarrow> ID list \<Rightarrow> NotationParts \<Rightarrow> NotationParts" where
  "createMissingParts makeId instrs existedInstrumentIds np =
     foldl (\<lambda>n instrument.
              (let isInstrumentExist = (existedInstrumentIds \<noteq> []
                                          \<and> instrumentId instrument \<in> set existedInstrumentIds)
               in if isInstrumentExist then n else createPart makeId instrument n))
           np instrs"

definition setInstruments ::
    "(nat \<Rightarrow> ID) \<Rightarrow> Instrument list \<Rightarrow> NotationParts \<Rightarrow> Fault + NotationParts" where
  "setInstruments makeId instrs np =
     (let instrumentIds = map instrumentId instrs;
          np1 = startEdit np;
          np2 = removeMissingInstruments instrumentIds np1;
          existedInstrumentIds = allInstrumentsIds np2;
          np3 = createMissingParts makeId instrs existedInstrumentIds np2;
          np4 = (if measures (score np3) = [] then np3\<lparr>score := (score np3)\<lparr>measures := [0]\<rparr>\<rparr>
                 else np3)
      in case sortParts instrumentIds np4 of
           Inl fault \<Rightarrow> Inl fault
         | Inr np5 \<Rightarrow>
             (let np6 = removeEmptyExcerpts np5;
                  np7 = apply_edit np6;
                  np8 = emit PartsListChanged np7
              in Inr (emit PartsChanged np8)))"


section \<open>Example scores\<close>

text \<open>Small scores on which the theorems below are instantiated.\<close>

definition ex_violin :: Instrument where
  "ex_violin = \<lparr>instrumentId = ''violin'', trackName = ''Violin'', inst_staves = 1\<rparr>"

definition ex_viola :: Instrument where
  "ex_viola = \<lparr>instrumentId = ''viola'', trackName = ''Viola'', inst_staves = 1\<rparr>"

definition ex_flute :: Instrument where
  "ex_flute = \<lparr>instrumentId = ''flute'', trackName = ''Flute'', inst_staves = 1\<rparr>"

definition ex_staff :: "nat \<Rightarrow> ID \<Rightarrow> ID \<Rightarrow> nat list \<Rightarrow> Staff" where
  "ex_staff ptr staffId partId content =
     \<lparr>staff_ptr = ptr, staff_id = staffId, staff_part = partId,
      staff_staffType = Some \<lparr>st_small = False\<rparr>, staff_invisible = False,
      staff_links = None, staff_content = content\<rparr>"

definition ex_part :: "ID \<Rightarrow> string \<Rightarrow> (int \<times> Instrument) list \<Rightarrow> Staff list \<Rightarrow> Part" where
  "ex_part partId nm instrs stvs =
     \<lparr>part_id = partId, partName = nm, part_show = True, part_instruments = instrs,
      part_staves = stvs\<rparr>"

definition ex_score :: "Part list \<Rightarrow> Score" where
  "ex_score ps =
     \<lparr>parts = ps, isMaster = True, excerpts = [], measures = [0, 1920],
      segments = [\<lparr>seg_tick = 0, seg_elist = [], seg_annotations = []\<rparr>], selection = None\<rparr>"

definition ex_notation :: "Score \<Rightarrow> NotationParts" where
  "ex_notation sc =
     \<lparr>score = sc, otherMaster = sc, ms_error = MS_NO_ERROR, events = [], next_ptr = 100\<rparr>"

definition ex_violin_part :: Part where
  "ex_violin_part = ex_part ''P1'' ''Violin'' [(-1, ex_violin)] [ex_staff 1 ''S1'' ''P1'' [60, 62]]"

definition ex_flute_part :: Part where
  "ex_flute_part = ex_part ''P2'' ''Flute'' [(-1, ex_flute)] [ex_staff 2 ''S2'' ''P2'' [72]]"

definition ex_doubling_part :: Part where
  "ex_doubling_part =
     ex_part ''P1'' ''Violin & Viola'' [(-1, ex_violin), (2, ex_viola)]
       [ex_staff 1 ''S1'' ''P1'' [60, 62]]"

text \<open>
  A score with the parts \<open>P1\<close> (violin, and viola as a doubling instrument without an instrument
  change element) and \<open>P2\<close> (flute), in which a chord of \<open>P2\<close> at tick 480 is selected.
\<close>

definition ex_selection_score :: Score where
  "ex_selection_score =
     \<lparr>parts = [ex_doubling_part, ex_flute_part], isMaster = True, excerpts = [],
      measures = [0, 1920],
      segments = [\<lparr>seg_tick = 0, seg_elist = [Some (ChordRestEl ''P1'' 0), None, None, None,
                                                 Some (ChordRestEl ''P2'' 4)],
                    seg_annotations = []\<rparr>,
                  \<lparr>seg_tick = 480, seg_elist = [Some (ChordRestEl ''P1'' 0), None, None, None,
                                                   Some (ChordRestEl ''P2'' 4)],
                    seg_annotations = []\<rparr>],
      selection = Some \<lparr>cr_part = ''P2'', cr_tick = 480, cr_track = 4\<rparr>\<rparr>"

definition ex_makeId :: "nat \<Rightarrow> ID" where
  "ex_makeId n = CHR ''#'' # replicate n (CHR ''i'')"


text \<open>
  An excerpt score that shows the flute part only, and its master score with the violin part
  and the flute part.
\<close>

definition ex_excerpt_notation :: NotationParts where
  "ex_excerpt_notation =
     \<lparr>score = (ex_score [ex_flute_part])\<lparr>isMaster := False\<rparr>,
      otherMaster = ex_score [ex_violin_part, ex_flute_part],
      ms_error = MS_NO_ERROR, events = [], next_ptr = 100\<rparr>"


text \<open>
  A part with two doubling instruments, at the ticks 2 and 3, and a part whose second
  instrument is at tick 3 as well.
\<close>

definition ex_oboe :: Instrument where
  "ex_oboe = \<lparr>instrumentId = ''oboe'', trackName = ''Oboe'', inst_staves = 1\<rparr>"

definition ex_clarinet :: Instrument where
  "ex_clarinet = \<lparr>instrumentId = ''clarinet'', trackName = ''Clarinet'', inst_staves = 1\<rparr>"

definition ex_three_part :: Part where
  "ex_three_part =
     ex_part ''P1'' ''Violin & Viola & Oboe'' [(-1, ex_violin), (2, ex_viola), (3, ex_oboe)]
       [ex_staff 1 ''S1'' ''P1'' [60, 62]]"

definition ex_winds_part :: Part where
  "ex_winds_part =
     ex_part ''P2'' ''Flute & Clarinet'' [(-1, ex_flute), (3, ex_clarinet)]
       [ex_staff 2 ''S2'' ''P2'' [72]]"

definition ex_late_oboe_part :: Part where
  "ex_late_oboe_part =
     ex_part ''P2'' ''Flute & Clarinet & Oboe'' [(-1, ex_flute), (2, ex_clarinet), (7, ex_oboe)]
       [ex_staff 2 ''S2'' ''P2'' [72]]"

section \<open>Invariants used in the proofs\<close>

text \<open>
  What a proof observes of a staff: its address, its identifier and its music (\<open>staffKey\<close>), or
  its identifier and its music (\<open>staffMusic\<close>).
\<close>

definition staffKey :: "Staff \<Rightarrow> nat \<times> ID \<times> nat list" where
  "staffKey s = (staff_ptr s, staff_id s, staff_content s)"

definition staffMusic :: "Staff \<Rightarrow> ID \<times> nat list" where
  "staffMusic s = (staff_id s, staff_content s)"

text \<open>
  The invariant of the cloning loop of \<^verbatim>\<open>doMoveStaves\<close>, started on the score \<open>sc0\<close> with the
  next free address \<open>n0\<close> and the destination part \<open>d\<close>, after the staves \<open>moved\<close> have been
  cloned: every address in the score is below the next free one; the staves that were there
  before (addresses below \<open>n0\<close>) are in their parts, in their order, with their identifiers and
  music; the new staves are in parts with the identifier \<open>d\<close>, and carry the identifiers and
  the music of the staves cloned so far; nothing but the parts of the score has changed.
\<close>

definition clone_inv :: "Score \<Rightarrow> nat \<Rightarrow> ID \<Rightarrow> Staff list \<Rightarrow> NotationParts \<Rightarrow> bool" where
  "clone_inv sc0 n0 d moved np =
     (n0 \<le> next_ptr np
      \<and> list_all (\<lambda>s. staff_ptr s < next_ptr np) (Score_staves (score np))
      \<and> map (\<lambda>p. (part_id p, map staffKey (filter (\<lambda>s. staff_ptr s < n0) (part_staves p))))
            (parts (score np))
          = map (\<lambda>p. (part_id p, map staffKey (part_staves p))) (parts sc0)
      \<and> list_all (\<lambda>p. part_id p = d \<or> filter (\<lambda>s. n0 \<le> staff_ptr s) (part_staves p) = [])
            (parts (score np))
      \<and> mset (map staffMusic (filter (\<lambda>s. n0 \<le> staff_ptr s) (Score_staves (score np))))
          = mset (map staffMusic moved)
      \<and> (score np)\<lparr>parts := []\<rparr> = sc0\<lparr>parts := []\<rparr>)"


(*DEFS_END*)

section \<open>Properties\<close>

lemma partList_loop_result:
  "partList_loop ps result ids = result @ partList_loop ps [] ids"
proof (induction ps arbitrary: result ids)
  case Nil
  then show ?case by simp
next
  case (Cons p ps)
  show ?case
  proof (cases "part_id p \<in> ids")
    case True
    then show ?thesis using Cons.IH [of result ids] by simp
  next
    case False
    then show ?thesis
      using Cons.IH [of "result @ [p]" "insert (part_id p) ids"]
            Cons.IH [of "[p]" "insert (part_id p) ids"]
      by simp
  qed
qed

subsection \<open>The part list\<close>

lemma partList_loop_Cons:
  "partList_loop (p # ps) [] ids =
     (if part_id p \<in> ids then partList_loop ps [] ids
      else p # partList_loop ps [] (insert (part_id p) ids))"
  using partList_loop_result [of ps "[p]" "insert (part_id p) ids"] by simp

lemma partList_loop_ids:
  "set (map part_id (partList_loop ps [] ids)) = set (map part_id ps) - ids"
  by (induction ps arbitrary: ids) (auto simp: partList_loop_Cons simp del: partList_loop.simps(2))

lemma partList_loop_mem:
  assumes "p \<in> set (partList_loop ps [] ids)"
  shows "part_id p \<notin> ids"
proof -
  have "part_id p \<in> set (map part_id (partList_loop ps [] ids))"
    using assms by simp
  then show ?thesis unfolding partList_loop_ids by simp
qed

lemma partList_loop_distinct: "distinct (map part_id (partList_loop ps [] ids))"
proof (induction ps arbitrary: ids)
  case Nil
  then show ?case by simp
next
  case (Cons p ps)
  have "part_id p \<notin> set (map part_id (partList_loop ps [] (insert (part_id p) ids)))"
    unfolding partList_loop_ids by simp
  then show ?case
    using Cons.IH by (simp add: partList_loop_Cons del: partList_loop.simps(2))
qed

lemma partList_loop_subseq: "subseq (partList_loop ps [] ids) ps"
  by (induction ps arbitrary: ids) (auto simp: partList_loop_Cons simp del: partList_loop.simps(2))

lemma partList_loop_first:
  "list_all (\<lambda>p. find (\<lambda>q. part_id q = part_id p) ps = Some p) (partList_loop ps [] ids)"
proof (induction ps arbitrary: ids)
  case Nil
  then show ?case by simp
next
  case (Cons a ps)
  have other: "list_all (\<lambda>p. part_id p \<noteq> part_id a) (partList_loop ps [] seen)"
    if "part_id a \<in> seen" for seen
    unfolding list_all_iff
  proof
    fix p
    assume "p \<in> set (partList_loop ps [] seen)"
    then have "part_id p \<notin> seen" by (rule partList_loop_mem)
    with that show "part_id p \<noteq> part_id a" by metis
  qed
  note skip = other [of ids] and later = other [of "insert (part_id a) ids", simplified]
  show ?case
  proof (cases "part_id a \<in> ids")
    case True
    then show ?thesis
      using Cons.IH [of ids] skip
      by (auto simp: partList_loop_Cons list_all_iff simp del: partList_loop.simps(2))
  next
    case False
    then show ?thesis
      using Cons.IH [of "insert (part_id a) ids"] later
      by (auto simp: partList_loop_Cons list_all_iff simp del: partList_loop.simps(2))
  qed
qed

text \<open>
  Claim C3. \<^verbatim>\<open>partList()\<close> never returns two entries with the same part identifier, also when
  a part is reachable through the score and through an excerpt: the identifiers of the result
  are pairwise distinct; they are exactly the identifiers of the available parts (the parts of
  the score followed by the parts of its excerpts); the result is a subsequence of the available
  parts, so their order is kept; and every entry is the first available part of its identifier.
\<close>

theorem partList_distinct_first_seen:
  "distinct (map part_id (partList np))
   \<and> set (map part_id (partList np)) = set (map part_id (availableParts (Some (score np))))
   \<and> subseq (partList np) (availableParts (Some (score np)))
   \<and> list_all (\<lambda>p. find (\<lambda>q. part_id q = part_id p) (availableParts (Some (score np))) = Some p)
        (partList np)
   \<and> availableParts (Some (score np))
       = parts (score np)
         @ (if isMaster (score np) then concat (map ex_parts (excerpts (score np))) else [])"
proof -
  have "set (map part_id (partList np)) = set (map part_id (availableParts (Some (score np))))"
    unfolding partList_def partList_loop_ids by simp
  moreover have "availableParts (Some (score np))
       = parts (score np)
         @ (if isMaster (score np) then concat (map ex_parts (excerpts (score np))) else [])"
    by (simp add: availableParts_def scoreParts_def excerptParts_def)
  ultimately show ?thesis
    unfolding partList_def
    using partList_loop_distinct partList_loop_subseq partList_loop_first
    by blast
qed

subsection \<open>The selection query\<close>

lemma selectedChord_eq:
  "selectedChord np =
     (selection (score np),
      np\<lparr>ms_error := (if selection (score np) = None \<or> ms_error np = NO_NOTE_REST_SELECTED
                       then MS_NO_ERROR else ms_error np)\<rparr>)"
  by (cases "selection (score np)") (simp_all add: selectedChord_def getSelectedChordRest_def)

lemma getSelectedChordRest_eq:
  "getSelectedChordRest np =
     (selection (score np),
      np\<lparr>ms_error := (if selection (score np) = None then NO_NOTE_REST_SELECTED
                       else ms_error np)\<rparr>)"
  by (cases "selection (score np)") (simp_all add: getSelectedChordRest_def)

lemma assignIstrumentToSelectedChord_flag:
  "ms_error (assignIstrumentToSelectedChord instrument np) \<noteq> NO_NOTE_REST_SELECTED"
  by (cases "selection (score np)")
     (simp_all add: assignIstrumentToSelectedChord_def selectedChord_eq startEdit_def
        apply_edit_def emit_def Let_def)

text \<open>
  Claim C10. After a call of \<^verbatim>\<open>selectedChord\<close> the score-wide error flag is never
  \<open>NO_NOTE_REST_SELECTED\<close>: a flag that has this value after the selection was queried is reset
  to \<open>MS_NO_ERROR\<close>, any other value is kept; so with no chord or rest selected the flag is
  \<open>MS_NO_ERROR\<close> afterwards, as if there had been no error. The helper returns what the query
  returned and changes nothing but the flag; the same holds after
  \<^verbatim>\<open>assignIstrumentToSelectedChord\<close>, which starts with this helper.
\<close>

theorem selectedChord_resets_error_flag:
  "ms_error (snd (selectedChord np)) \<noteq> NO_NOTE_REST_SELECTED
   \<and> ms_error (snd (selectedChord np)) =
       (if ms_error (snd (getSelectedChordRest np)) = NO_NOTE_REST_SELECTED then MS_NO_ERROR
        else ms_error (snd (getSelectedChordRest np)))
   \<and> ms_error (snd (selectedChord np)) =
       (if selection (score np) = None \<or> ms_error np = NO_NOTE_REST_SELECTED then MS_NO_ERROR
        else ms_error np)
   \<and> fst (selectedChord np) = fst (getSelectedChordRest np)
   \<and> (snd (selectedChord np))\<lparr>ms_error := e\<rparr> = np\<lparr>ms_error := e\<rparr>
   \<and> ms_error (assignIstrumentToSelectedChord instrument np) \<noteq> NO_NOTE_REST_SELECTED"
  using assignIstrumentToSelectedChord_flag [of instrument np]
  by (simp add: selectedChord_eq getSelectedChordRest_eq)

subsection \<open>Ordered maps and part lookup\<close>

lemma omap_insert_keys: "set (map fst (omap_insert k v m)) = insert k (set (map fst m))"
proof (induction m)
  case Nil
  then show ?case by simp
next
  case (Cons e m)
  obtain k' v' where e: "e = (k', v')" by (cases e)
  show ?case using Cons.IH unfolding e by (cases "k < k'"; cases "k = k'") auto
qed

lemma omap_insert_greatest:
  "list_all (\<lambda>t. t < k) (map fst m) \<Longrightarrow> omap_insert k v m = m @ [(k, v)]"
  by (induction m) auto

lemma instruments_fold_keys:
  "set (map fst (foldl (\<lambda>result (tick, instrument). omap_insert tick instrument result) acc xs))
     = set (map fst acc) \<union> set (map fst xs)"
proof (induction xs arbitrary: acc)
  case Nil
  then show ?case by simp
next
  case (Cons e xs)
  obtain t i where e: "e = (t, i)" by (cases e)
  show ?case unfolding e using Cons.IH [of "omap_insert t i acc"] omap_insert_keys [of t i acc]
    by (simp del: set_map)
qed

lemma instruments_keys: "set (map fst (instruments prt [])) = set (map fst (part_instruments prt))"
  using instruments_fold_keys [of "[]" "part_instruments prt"]
  by (simp add: instruments_def)

lemma foldl_max_Max:
  "foldl (\<lambda>lastTick fraction. max fraction lastTick) (a::int) xs = Max (insert a (set xs))"
proof (induction xs arbitrary: a)
  case Nil
  then show ?case by simp
next
  case (Cons x xs)
  have "Max (insert (max x a) (set xs)) = Max (insert a (insert x (set xs)))"
  proof (cases "xs = []")
    case True
    then show ?thesis by (simp add: max.commute)
  next
    case False
    then show ?thesis by (simp add: max.commute max.left_commute max.assoc)
  qed
  then show ?case using Cons.IH [of "max x a"] by simp
qed

lemma find_update_first:
  assumes "\<And>x. P x \<Longrightarrow> P (f x)"
  shows "find P (update_first P f xs) = map_option f (find P xs)"
  using assms by (induction xs) auto

lemma find_append_if:
  "find P (xs @ ys) = (case find P xs of Some x \<Rightarrow> Some x | None \<Rightarrow> find P ys)"
  by (induction xs) auto

lemma find_None_list_ex: "(find P xs = None) = (\<not> list_ex P xs)"
  by (induction xs) auto

lemma find_modifyExcerptPart:
  assumes "\<And>p. part_id (f p) = part_id p"
  shows "find (\<lambda>p. part_id p = pid) (concat (map ex_parts (modifyExcerptPart pid f es)))
         = map_option f (find (\<lambda>p. part_id p = pid) (concat (map ex_parts es)))"
proof (induction es)
  case Nil
  then show ?case by simp
next
  case (Cons e es)
  show ?case
  proof (cases "list_ex (\<lambda>p. part_id p = pid) (ex_parts e)")
    case True
    then obtain x where "find (\<lambda>p. part_id p = pid) (ex_parts e) = Some x"
      using find_None_list_ex [of "\<lambda>p. part_id p = pid" "ex_parts e"] by (cases "find (\<lambda>p. part_id p = pid) (ex_parts e)") auto
    then show ?thesis using True assms
      by (simp add: find_append_if find_update_first)
  next
    case False
    then have "find (\<lambda>p. part_id p = pid) (ex_parts e) = None"
      using find_None_list_ex [of "\<lambda>p. part_id p = pid" "ex_parts e"] by simp
    then show ?thesis using False Cons.IH by (simp add: find_append_if)
  qed
qed

lemma part_modifyPart:
  assumes "\<And>p. part_id (f p) = part_id p"
  shows "part pid None (np\<lparr>score := modifyPart pid f (score np)\<rparr>) = map_option f (part pid None np)"
proof (cases "list_ex (\<lambda>p. part_id p = pid) (parts (score np))")
  case True
  then obtain x where x: "find (\<lambda>p. part_id p = pid) (parts (score np)) = Some x"
    using find_None_list_ex [of "\<lambda>p. part_id p = pid" "parts (score np)"]
    by (cases "find (\<lambda>p. part_id p = pid) (parts (score np))") auto
  show ?thesis using True x assms
    by (simp add: part_def modifyPart_def modifyScorePart_def availableParts_def scoreParts_def
          excerptParts_def find_append_if find_update_first)
next
  case False
  then have x: "find (\<lambda>p. part_id p = pid) (parts (score np)) = None"
    using find_None_list_ex [of "\<lambda>p. part_id p = pid" "parts (score np)"] by simp
  show ?thesis using False x find_modifyExcerptPart [OF assms, of pid "excerpts (score np)"]
    by (simp add: part_def modifyPart_def availableParts_def scoreParts_def
          excerptParts_def find_append_if)
qed

subsection \<open>Appending a doubling instrument\<close>

lemma part_score_only: "score np' = score np \<Longrightarrow> part pid sco np' = part pid sco np"
  by (cases sco) (simp_all add: part_def)

lemma lastTick_eq:
  "foldl (\<lambda>lastTick fraction. max fraction lastTick) 1 (map fst (instruments prt []))
     = Max (insert 1 (set (map fst (part_instruments prt))))"
  unfolding foldl_max_Max instruments_keys ..

lemma Max_insert_less:
  assumes "list_all (\<lambda>t. t < b) xs" and "a < b"
  shows "Max (insert a (set xs)) < (b::int)"
  using assms by (simp add: list_all_iff)

lemma below_Max_insert:
  "list_all (\<lambda>t. t < Max (insert a (set xs)) + 1) (xs :: int list)"
  unfolding list_all_iff
proof
  fix t assume "t \<in> set xs"
  then have "t \<le> Max (insert a (set xs))" by simp
  then show "t < Max (insert a (set xs)) + 1" by simp
qed

text \<open>
  Claim C4, as amended. \<^verbatim>\<open>appendDoublingInstrument\<close> on an existing part adds exactly one
  entry to the instrument table of the part: the table afterwards is the old table followed by
  the new instrument at the tick \<open>max(1, greatest existing tick) + 1\<close> (the source starts its
  maximum at 1, not at the first tick), and this tick is greater than every tick of the old
  table. The ticks are C++ \<^verbatim>\<open>int\<close>s below \<open>INT_MAX\<close>, where the increment is defined.
\<close>

theorem appendDoublingInstrument_new_tick:
  assumes found: "part destinationPartId None np = Some prt"
      and range: "list_all (\<lambda>t. t < INT_MAX) (map fst (part_instruments prt))"
  shows "\<exists>np'. appendDoublingInstrument instrument destinationPartId np = Inr np'
     \<and> map_option part_instruments (part destinationPartId None np')
         = Some (part_instruments prt
                  @ [(Max (insert 1 (set (map fst (part_instruments prt)))) + 1, instrument)])
     \<and> list_all (\<lambda>t. t < Max (insert 1 (set (map fst (part_instruments prt)))) + 1)
          (map fst (part_instruments prt))
     \<and> events np' = events np @ [PrepareChanges, CommitChanges,
          InstrumentItemAdded destinationPartId (instrumentId instrument),
          PartItemChanged (part_id prt), PartsChanged]"
proof -
  let ?keys = "map fst (part_instruments prt)"
  let ?last = "Max (insert 1 (set ?keys))"
  have "(1::int) < INT_MAX" by (simp add: INT_MAX_def)
  then have "?last < INT_MAX" by (rule Max_insert_less [OF range])
  then have no_overflow: "?last \<noteq> INT_MAX" by (rule less_imp_neq)
  have below: "list_all (\<lambda>t. t < ?last + 1) ?keys"
    by (rule below_Max_insert)
  define np1 where "np1 = startEdit np"
  define np2 where "np2 = np1\<lparr>score := modifyPart destinationPartId
                                 (Part_setInstrument instrument (?last + 1)) (score np1)\<rparr>"
  define np3 where "np3 = doSetPartName destinationPartId (formatPartName (deref_part prt np2)) np2"
  define np' where "np' = emit PartsChanged (emit (PartItemChanged (part_id prt))
     (emit (InstrumentItemAdded destinationPartId (instrumentId instrument)) (apply_edit np3)))"
  have run: "appendDoublingInstrument instrument destinationPartId np = Inr np'"
    using found no_overflow
    by (simp add: appendDoublingInstrument_def lastTick_eq Let_def np'_def np3_def np2_def np1_def)
  have p1: "part destinationPartId None np1 = Some prt"
    using found by (simp add: np1_def startEdit_def emit_def part_def)
  have p2: "part destinationPartId None np2
              = Some (Part_setInstrument instrument (?last + 1) prt)"
    unfolding np2_def using part_modifyPart [of "Part_setInstrument instrument (?last + 1)" destinationPartId np1] p1
    by (simp add: Part_setInstrument_def)
  have p3: "part destinationPartId None np3
              = Some ((Part_setInstrument instrument (?last + 1) prt)
                        \<lparr>partName := formatPartName (deref_part prt np2)\<rparr>)"
    unfolding np3_def doSetPartName_def
    using part_modifyPart [of "\<lambda>p. p\<lparr>partName := formatPartName (deref_part prt np2)\<rparr>" destinationPartId np2] p2
    by simp
  have "score np' = score np3"
    by (simp add: np'_def emit_def apply_edit_def)
  then have p': "part destinationPartId None np' = part destinationPartId None np3"
    by (rule part_score_only)
  have instrs: "map_option part_instruments (part destinationPartId None np')
         = Some (part_instruments prt @ [(?last + 1, instrument)])"
    unfolding p' p3 using omap_insert_greatest [OF below, of instrument]
    by (simp add: Part_setInstrument_def)
  have ev: "events np' = events np @ [PrepareChanges, CommitChanges,
          InstrumentItemAdded destinationPartId (instrumentId instrument),
          PartItemChanged (part_id prt), PartsChanged]"
    by (simp add: np'_def np3_def np2_def np1_def emit_def apply_edit_def startEdit_def doSetPartName_def)
  show ?thesis using run instrs below ev by blast
qed

lemmas ex_defs = ex_violin_def ex_viola_def ex_flute_def ex_staff_def ex_part_def ex_score_def
  ex_notation_def ex_violin_part_def ex_flute_part_def ex_doubling_part_def
  ex_selection_score_def

lemmas lookup_defs = part_def availableParts_def scoreParts_def excerptParts_def

text \<open>
  The theorem at the part \<open>P1\<close> that holds a violin at tick \<open>-1\<close>: the viola arrives at
  tick 2.
\<close>

theorem appendDoublingInstrument_new_tick_witness:
  "part ''P1'' None (ex_notation (ex_score [ex_violin_part])) = Some ex_violin_part
   \<and> list_all (\<lambda>t. t < INT_MAX) (map fst (part_instruments ex_violin_part))
   \<and> (\<exists>np'. appendDoublingInstrument ex_viola ''P1'' (ex_notation (ex_score [ex_violin_part])) = Inr np'
        \<and> map_option part_instruments (part ''P1'' None np') = Some [(-1, ex_violin), (2, ex_viola)]
        \<and> events np' = [PrepareChanges, CommitChanges, InstrumentItemAdded ''P1'' ''viola'',
                         PartItemChanged ''P1'', PartsChanged])"
proof -
  have h1: "part ''P1'' None (ex_notation (ex_score [ex_violin_part])) = Some ex_violin_part"
    by (simp add: lookup_defs ex_defs)
  have h2: "list_all (\<lambda>t. t < INT_MAX) (map fst (part_instruments ex_violin_part))"
    by (simp add: ex_defs INT_MAX_def)
  have e: "events (ex_notation (ex_score [ex_violin_part])) = []"
    by (simp add: ex_defs)
  have m: "Max (insert 1 (set (map fst (part_instruments ex_violin_part)))) + 1 = (2::int)"
    by (simp add: ex_defs)
  have i: "part_instruments ex_violin_part = [(-1, ex_violin)]" "instrumentId ex_viola = ''viola''"
    "part_id ex_violin_part = ''P1''"
    by (simp_all add: ex_defs)
  show ?thesis
    using appendDoublingInstrument_new_tick [OF h1 h2, of ex_viola] h1 h2
    unfolding m e i by simp
qed

text \<open>
  Claim C4 as stated fails on that part: the greatest existing tick is \<open>-1\<close>, the claimed
  tick is \<open>-1 + 1 = 0\<close>, and the new entry is at tick 2.
\<close>

theorem appendDoublingInstrument_counterexample:
  "\<not> isl (appendDoublingInstrument ex_viola ''P1'' (ex_notation (ex_score [ex_violin_part])))
   \<and> map (\<lambda>p. map fst (part_instruments p))
         (parts (score (projr (appendDoublingInstrument ex_viola ''P1''
                                  (ex_notation (ex_score [ex_violin_part]))))))
       = [[-1, 2]]
   \<and> map fst (part_instruments ex_violin_part) = [-1]
   \<and> Max (set (map fst (part_instruments ex_violin_part))) + 1 = 0"
  by (simp add: appendDoublingInstrument_def lookup_defs ex_defs instruments_def INT_MAX_def
        startEdit_def apply_edit_def emit_def Let_def modifyPart_def modifyScorePart_def
        Part_setInstrument_def doSetPartName_def)

subsection \<open>Operations on a missing part or staff, and on an empty list\<close>

lemma moveParts_Nil:
  "moveParts [] destinationPartId mode np
     = np\<lparr>events := events np @ [PrepareChanges, CommitChanges, PartsChanged]\<rparr>"
  by (simp add: moveParts_def startEdit_def apply_edit_def emit_def)

lemma moveStaves_Nil: "moveStaves [] destinationStaffId mode np = np"
  by (simp add: moveStaves_def)

text \<open>
  Claim C2 says that a precondition miss aborts an operation silently, with no transaction, no
  notification and no exception. \<^verbatim>\<open>moveParts\<close> has no guard: on an empty list, and on a source
  identifier that resolves to nothing, it opens and commits a transaction and fires the
  parts-changed notification (its sibling \<^verbatim>\<open>moveStaves\<close> returns at once on an empty list).
  \<^verbatim>\<open>setSmallStaff\<close> reads \<^verbatim>\<open>staff->staffType(...)\<close> before it tests \<^verbatim>\<open>staff\<close>: on a staff identifier
  that resolves to nothing it dereferences a null pointer.
\<close>

theorem precondition_miss_not_silent:
  "moveParts [] destinationPartId mode np
     = np\<lparr>events := events np @ [PrepareChanges, CommitChanges, PartsChanged]\<rparr>
   \<and> moveStaves [] destinationStaffId mode np = np
   \<and> part ''P9'' None (ex_notation (ex_score [ex_violin_part])) = None
   \<and> moveParts [''P9''] ''P1'' Before (ex_notation (ex_score [ex_violin_part]))
       = (ex_notation (ex_score [ex_violin_part]))
           \<lparr>events := [PrepareChanges, CommitChanges, PartsChanged]\<rparr>
   \<and> staff ''S9'' (ex_notation (ex_score [ex_violin_part])) = None
   \<and> setSmallStaff ''S9'' True (ex_notation (ex_score [ex_violin_part])) = Inl NullDereference"
proof -
  have "part ''P9'' None (ex_notation (ex_score [ex_violin_part])) = None"
    by code_simp
  moreover have "moveParts [''P9''] ''P1'' Before (ex_notation (ex_score [ex_violin_part]))
       = (ex_notation (ex_score [ex_violin_part]))
           \<lparr>events := [PrepareChanges, CommitChanges, PartsChanged]\<rparr>"
    by code_simp
  moreover have "staff ''S9'' (ex_notation (ex_score [ex_violin_part])) = None"
    by code_simp
  moreover have "setSmallStaff ''S9'' True (ex_notation (ex_score [ex_violin_part]))
       = Inl NullDereference"
    by code_simp
  ultimately show ?thesis
    using moveParts_Nil [of destinationPartId mode np] moveStaves_Nil [of destinationStaffId mode np]
    by simp
qed

subsection \<open>Assigning an instrument when the selection is in another part\<close>

text \<open>
  Claim C5 says that \<^verbatim>\<open>assignIstrumentToSelectedChord\<close> fails silently when the selected chord
  belongs to a different part. The function tests only that a chord is selected and works on
  \<^verbatim>\<open>chord->part()\<close>. In the example score the viola is a doubling instrument of part \<open>P1\<close> and
  the selected chord is in part \<open>P2\<close>: \<^verbatim>\<open>resolveCanChangeInstrumentVisibility\<close> answers no, yet
  \<^verbatim>\<open>setInstrumentVisible\<close> for the viola of \<open>P1\<close> puts the viola into the instrument table of
  \<open>P2\<close> at the tick of the chord, adds an instrument change element there, commits a
  transaction and notifies; \<open>P1\<close> keeps its viola.
\<close>

theorem assign_to_chord_of_other_part:
  "selection ex_selection_score = Some \<lparr>cr_part = ''P2'', cr_tick = 480, cr_track = 4\<rparr>
   \<and> fst (resolveCanChangeInstrumentVisibility ''viola'' ''P1'' (ex_notation ex_selection_score))
       = False
   \<and> (let np = setInstrumentVisible ''viola'' ''P1'' False (ex_notation ex_selection_score)
       in (map (\<lambda>p. (part_id p, part_instruments p)) (parts (score np)),
           map seg_annotations (segments (score np)),
           events np))
       = ([(''P1'', [(-1, ex_violin), (2, ex_viola)]),
           (''P2'', [(-1, ex_flute), (480, ex_viola)])],
          [[], [Some (InstrumentChangeEl ''P2'' 4 ex_viola True)]],
          [PrepareChanges, CommitChanges, InstrumentItemChanged ''P2'' ''viola'', PartsChanged])"
  by code_simp

subsection \<open>The part count before sorting\<close>

text \<open>
  Claim C6 says that after the removal phase and the creation phase of \<^verbatim>\<open>setInstruments\<close> the
  score has as many parts as instrument identifiers were supplied, so that the assertion at
  the start of \<^verbatim>\<open>sortParts\<close> holds. On a score with one violin part the list
  \<open>[violin, violin]\<close> (a second violin is added) removes nothing and creates nothing, because
  the identifier exists already: one part, two identifiers, and the assertion fails. The same
  happens with the list \<open>[violin, viola]\<close> on a score whose single part holds the viola as a
  doubling instrument.
\<close>

theorem setInstruments_part_count_mismatch:
  "(let np = ex_notation (ex_score [ex_violin_part]);
        np2 = removeMissingInstruments (map instrumentId [ex_violin, ex_violin]) (startEdit np);
        np3 = createMissingParts ex_makeId [ex_violin, ex_violin] (allInstrumentsIds np2) np2
    in (length (parts (score np3)), length (map instrumentId [ex_violin, ex_violin]))) = (1, 2)
   \<and> setInstruments ex_makeId [ex_violin, ex_violin] (ex_notation (ex_score [ex_violin_part]))
       = Inl AssertionFailed
   \<and> setInstruments ex_makeId [ex_violin, ex_viola] (ex_notation (ex_score [ex_doubling_part]))
       = Inl AssertionFailed"
  by code_simp

subsection \<open>Inserting into lists of parts and staves\<close>

lemma update_first_split:
  assumes "list_all (\<lambda>x. \<not> P x) pre" and "P x"
  shows "update_first P f (pre @ x # post) = pre @ f x # post"
  using assms by (induction pre) auto

lemma insert_at_split:
  "\<exists>pre post. xs = pre @ post \<and> (\<forall>x. insert_at i x xs = pre @ x # post)"
proof (cases "i \<le> 0")
  case True
  then have "xs = [] @ xs \<and> (\<forall>x. insert_at i x xs = [] @ x # xs)" by (simp add: insert_at_def)
  then show ?thesis by blast
next
  case False
  show ?thesis
  proof (cases "int (length xs) \<le> i")
    case True
    then have "xs = xs @ [] \<and> (\<forall>x. insert_at i x xs = xs @ x # [])"
      using False by (simp add: insert_at_def)
    then show ?thesis by blast
  next
    case False
    then have "xs = take (nat i) xs @ drop (nat i) xs
        \<and> (\<forall>x. insert_at i x xs = take (nat i) xs @ x # drop (nat i) xs)"
      using \<open>\<not> i \<le> 0\<close> by (simp add: insert_at_def)
    then show ?thesis by blast
  qed
qed

lemma undoInsertStaff_append:
  assumes "parts sc = pre @ pc # post"
      and "part_id pc = staff_part st"
      and "list_all (\<lambda>p. part_id p \<noteq> staff_part st) pre"
      and "ridx = int (length (part_staves pc))"
  shows "undoInsertStaff st ridx sc
           = sc\<lparr>parts := pre @ pc\<lparr>part_staves := part_staves pc @ [st]\<rparr> # post\<rparr>"
  using assms update_first_split [of "\<lambda>p. part_id p = staff_part st" pre pc _ post]
  by (simp add: undoInsertStaff_def insertStaff_at_def)

lemma map_staves_other:
  assumes "list_all (\<lambda>s. staff_ptr s \<noteq> q) stvs"
  shows "map (\<lambda>x. if staff_ptr x = q then f x else x) stvs = stvs"
  using assms by (induction stvs) auto

lemma map_parts_other:
  assumes "list_all (\<lambda>p. list_all (\<lambda>s. staff_ptr s \<noteq> q) (part_staves p)) ps"
  shows "map (\<lambda>p. p\<lparr>part_staves := map (\<lambda>x. if staff_ptr x = q then f x else x) (part_staves p)\<rparr>) ps
           = ps"
  using assms by (induction ps) (auto simp: map_staves_other)

lemma mapStaff_last:
  assumes "parts sc = pre @ pc\<lparr>part_staves := stvs @ [st]\<rparr> # post"
      and "list_all (\<lambda>p. list_all (\<lambda>s. staff_ptr s \<noteq> staff_ptr st) (part_staves p)) pre"
      and "list_all (\<lambda>p. list_all (\<lambda>s. staff_ptr s \<noteq> staff_ptr st) (part_staves p)) post"
      and "list_all (\<lambda>s. staff_ptr s \<noteq> staff_ptr st) stvs"
  shows "mapStaff (staff_ptr st) f sc
           = sc\<lparr>parts := pre @ pc\<lparr>part_staves := stvs @ [f st]\<rparr> # post\<rparr>"
  using assms by (simp add: mapStaff_def map_parts_other map_staves_other)

lemma list_all_less_neq:
  "list_all (\<lambda>s. staff_ptr s < (n::nat)) stvs \<Longrightarrow> list_all (\<lambda>s. staff_ptr s \<noteq> n) stvs"
  by (induction stvs) auto

lemma parts_all_less_neq:
  "list_all (\<lambda>p. list_all (\<lambda>s. staff_ptr s < (n::nat)) (part_staves p)) ps
     \<Longrightarrow> list_all (\<lambda>p. list_all (\<lambda>s. staff_ptr s \<noteq> n) (part_staves p)) ps"
  by (induction ps) (auto simp: list_all_less_neq)

lemma list_all_less_Suc:
  "list_all (\<lambda>s. staff_ptr s < (n::nat)) stvs \<Longrightarrow> list_all (\<lambda>s. staff_ptr s < Suc n) stvs"
  by (induction stvs) auto

lemma parts_all_less_Suc:
  "list_all (\<lambda>p. list_all (\<lambda>s. staff_ptr s < (n::nat)) (part_staves p)) ps
     \<Longrightarrow> list_all (\<lambda>p. list_all (\<lambda>s. staff_ptr s < Suc n) (part_staves p)) ps"
  by (induction ps) (auto simp: list_all_less_Suc)

lemma measures_undoInsertStaff [simp]: "measures (undoInsertStaff st k sc) = measures sc"
  by (simp add: undoInsertStaff_def)

lemma appendPart_staves_run:
  assumes "measures (score np) = m # ms"
      and "parts (score np) = pre @ pc # post"
      and "part_id pc = pid"
      and "list_all (\<lambda>p. part_id p \<noteq> pid) pre"
      and "k = int (length (part_staves pc))"
      and "list_all (\<lambda>p. list_all (\<lambda>s. staff_ptr s < next_ptr np) (part_staves p)) pre"
      and "list_all (\<lambda>p. list_all (\<lambda>s. staff_ptr s < next_ptr np) (part_staves p)) post"
      and "list_all (\<lambda>s. staff_ptr s < next_ptr np) (part_staves pc)"
  shows "appendPart_staves cs2 pid k sts np
     = Inr (np\<lparr>next_ptr := next_ptr np + length sts,
               score := (score np)\<lparr>parts :=
                 pre @ pc\<lparr>part_staves := part_staves pc
                     @ map (\<lambda>(i, st). st\<lparr>staff_ptr := i, staff_part := pid, staff_links := None,
                                           staff_content := cs2 (staff_content st) m (last (m # ms))\<rparr>)
                         (enumerate (next_ptr np) sts)\<rparr> # post\<rparr>\<rparr>)"
  using assms
proof (induction sts arbitrary: np pc k)
  case Nil
  then show ?case by simp
next
  case (Cons st rest)
  note last.simps [simp del]
  let ?n = "next_ptr np"
  let ?blank = "st\<lparr>staff_ptr := ?n, staff_part := pid, staff_links := None, staff_content := []\<rparr>"
  let ?filled = "st\<lparr>staff_ptr := ?n, staff_part := pid, staff_links := None,
                   staff_content := cs2 (staff_content st) m (last (m # ms))\<rparr>"
  let ?pcA = "pc\<lparr>part_staves := part_staves pc @ [?blank]\<rparr>"
  let ?pcB = "pc\<lparr>part_staves := part_staves pc @ [?filled]\<rparr>"
  define np1 where "np1 = np\<lparr>next_ptr := ?n + 1, score := undoInsertStaff ?blank k (score np)\<rparr>"
  have ins: "undoInsertStaff ?blank k (score np) = (score np)\<lparr>parts := pre @ ?pcA # post\<rparr>"
    using undoInsertStaff_append [of "score np" pre pc post ?blank k] Cons.prems by simp
  define np2 where "np2 = np1\<lparr>score := mapStaff ?n
        (\<lambda>x. x\<lparr>staff_content := cs2 (staff_content st) m (last (m # ms))\<rparr>) (score np1)\<rparr>"
  have sc1: "parts (score np1) = pre @ pc\<lparr>part_staves := part_staves pc @ [?blank]\<rparr> # post"
    by (simp add: np1_def ins)
  have mp: "mapStaff (staff_ptr ?blank) (\<lambda>x. x\<lparr>staff_content := cs2 (staff_content st) m (last (m # ms))\<rparr>) (score np1)
      = (score np1)\<lparr>parts := pre @ pc\<lparr>part_staves := part_staves pc
           @ [(\<lambda>x. x\<lparr>staff_content := cs2 (staff_content st) m (last (m # ms))\<rparr>) ?blank]\<rparr> # post\<rparr>"
    using Cons.prems
    by (intro mapStaff_last [OF sc1]) (simp_all add: parts_all_less_neq list_all_less_neq)
  have sc2: "score np2 = (score np)\<lparr>parts := pre @ ?pcB # post\<rparr>"
    using mp by (simp add: np2_def np1_def ins)
  have n2: "next_ptr np2 = Suc ?n" by (simp add: np2_def np1_def)
  have step: "appendPart_staves cs2 pid k (st # rest) np = appendPart_staves cs2 pid (k + 1) rest np2"
    using Cons.prems(1) by (simp add: Let_def np1_def np2_def)
  have IH: "appendPart_staves cs2 pid (k + 1) rest np2
     = Inr (np2\<lparr>next_ptr := next_ptr np2 + length rest,
               score := (score np2)\<lparr>parts :=
                 pre @ ?pcB\<lparr>part_staves := part_staves ?pcB
                     @ map (\<lambda>(i, st). st\<lparr>staff_ptr := i, staff_part := pid, staff_links := None,
                                           staff_content := cs2 (staff_content st) m (last (m # ms))\<rparr>)
                         (enumerate (next_ptr np2) rest)\<rparr> # post\<rparr>\<rparr>)"
    using Cons.prems
    by (intro Cons.IH) (simp_all add: sc2 n2 parts_all_less_Suc list_all_less_Suc)
  have fin: "np2\<lparr>next_ptr := next_ptr np2 + length rest,
               score := (score np2)\<lparr>parts :=
                 pre @ ?pcB\<lparr>part_staves := part_staves ?pcB
                     @ map (\<lambda>(i, st). st\<lparr>staff_ptr := i, staff_part := pid, staff_links := None,
                                           staff_content := cs2 (staff_content st) m (last (m # ms))\<rparr>)
                         (enumerate (next_ptr np2) rest)\<rparr> # post\<rparr>\<rparr>
      = np\<lparr>next_ptr := next_ptr np + length (st # rest),
               score := (score np)\<lparr>parts :=
                 pre @ pc\<lparr>part_staves := part_staves pc
                     @ map (\<lambda>(i, st). st\<lparr>staff_ptr := i, staff_part := pid, staff_links := None,
                                           staff_content := cs2 (staff_content st) m (last (m # ms))\<rparr>)
                         (enumerate (next_ptr np) (st # rest))\<rparr> # post\<rparr>\<rparr>"
    unfolding sc2 n2 by (simp add: np2_def np1_def)
  show ?case unfolding step IH fin ..
qed

subsection \<open>Showing a part that exists in the master score only\<close>

lemma find_Some_pred: "find P xs = Some x \<Longrightarrow> P x"
  by (induction xs) (auto split: if_splits)

lemma find_None_all: "find P xs = None \<Longrightarrow> list_all (\<lambda>x. \<not> P x) xs"
  by (induction xs) (auto split: if_splits)

lemma find_append_None: "find P (xs @ ys) = None \<Longrightarrow> find P xs = None"
  by (induction xs) auto

lemma list_all_concat_staves:
  "list_all P (concat (map part_staves ps)) = list_all (\<lambda>p. list_all P (part_staves p)) ps"
  by (induction ps) auto

lemma resolvePartIndex_events [simp]:
  "resolvePartIndex prt (emit e np) = resolvePartIndex prt np"
  by (simp add: resolvePartIndex_def emit_def masterScore_def)

text \<open>
  Claim C9. \<^verbatim>\<open>setPartVisible(partId, true)\<close> for a part that the current score does not have
  and the master score has copies the part into the current score: the copy of the part is
  inserted at the index \<^verbatim>\<open>resolvePartIndex\<close> gives, with one new staff object for every
  staff of the master's part, in the same order, under the same staff identifier, and with the
  music that \<^verbatim>\<open>cloneStaff2\<close> makes of the master staff for the range from the tick of the
  first measure to the tick of the last measure of the current score; one transaction is
  committed, and the part and the structure notifications follow. The current score has a
  measure, and the addresses of its staves lie below the next free address.
\<close>

theorem setPartVisible_materializes_master_part:
  assumes notHere: "part partId None np = None"
      and inMaster: "part partId (Some (masterScore np)) np = Some prt"
      and meas: "measures (score np) \<noteq> []"
      and fresh: "list_all (\<lambda>s. staff_ptr s < next_ptr np) (Score_staves (score np))"
  shows "setPartVisible cloneStaff2 partId True np
     = Inr (np\<lparr>score := (score np)\<lparr>parts :=
                 insert_at (resolvePartIndex prt np)
                   (prt\<lparr>part_staves :=
                      map (\<lambda>(i, st). st\<lparr>staff_ptr := i, staff_part := partId, staff_links := None,
                             staff_content := cloneStaff2 (staff_content st)
                                (hd (measures (score np))) (last (measures (score np)))\<rparr>)
                        (enumerate (next_ptr np) (part_staves prt))\<rparr>)
                   (parts (score np))\<rparr>,
               next_ptr := next_ptr np + length (part_staves prt),
               events := events np @ [PrepareChanges, CommitChanges, PartItemChanged partId,
                                      PartsChanged]\<rparr>)"
proof -
  note last.simps [simp del]
  obtain m ms where mm: "measures (score np) = m # ms"
    using meas by (cases "measures (score np)") auto
  have pid: "part_id prt = partId"
    using find_Some_pred [OF inMaster [unfolded part_def]] .
  have "find (\<lambda>p. part_id p = partId) (parts (score np)) = None"
    using notHere find_append_None [of "\<lambda>p. part_id p = partId" "parts (score np)"]
    by (simp add: part_def availableParts_def scoreParts_def)
  then have absent: "list_all (\<lambda>p. part_id p \<noteq> partId) (parts (score np))"
    by (rule find_None_all)
  have fresh': "list_all (\<lambda>p. list_all (\<lambda>s. staff_ptr s < next_ptr np) (part_staves p)) (parts (score np))"
    using fresh by (simp add: Score_staves_def list_all_concat_staves)
  define partCopy where "partCopy = prt\<lparr>part_staves := []\<rparr>"
  obtain pre post where split: "parts (score np) = pre @ post"
    and ins0: "\<forall>x. insert_at (resolvePartIndex prt np) x (parts (score np)) = pre @ x # post"
    using insert_at_split [of "parts (score np)" "resolvePartIndex prt np"] by blast
  have ins: "insert_at (resolvePartIndex prt np) partCopy (parts (score np)) = pre @ partCopy # post"
    using ins0 by simp
  define np1 where "np1 = startEdit np"
  define np2 where "np2 = np1\<lparr>score := (score np1)\<lparr>parts :=
      insert_at (resolvePartIndex prt np1) partCopy (parts (score np1))\<rparr>\<rparr>"
  have s2: "parts (score np2) = pre @ partCopy # post"
    by (simp add: np2_def np1_def startEdit_def ins) (simp add: emit_def ins)
  have m2: "measures (score np2) = m # ms"
    by (simp add: np2_def np1_def startEdit_def emit_def mm)
  have n2: "next_ptr np2 = next_ptr np"
    by (simp add: np2_def np1_def startEdit_def emit_def)
  have run: "appendPart_staves cloneStaff2 partId 0 (part_staves prt) np2
     = Inr (np2\<lparr>next_ptr := next_ptr np2 + length (part_staves prt),
               score := (score np2)\<lparr>parts :=
                 pre @ partCopy\<lparr>part_staves := part_staves partCopy
                     @ map (\<lambda>(i, st). st\<lparr>staff_ptr := i, staff_part := partId, staff_links := None,
                                           staff_content := cloneStaff2 (staff_content st) m (last (m # ms))\<rparr>)
                         (enumerate (next_ptr np2) (part_staves prt))\<rparr> # post\<rparr>\<rparr>)"
    using absent fresh' split
    by (intro appendPart_staves_run [OF m2 s2]) (simp_all add: partCopy_def pid n2)
  have ins': "insert_at (resolvePartIndex prt np) (partCopy\<lparr>part_staves := stvs\<rparr>) (parts (score np))
               = pre @ partCopy\<lparr>part_staves := stvs\<rparr> # post" for stvs
    using ins0 by simp
  have "setPartVisible cloneStaff2 partId True np = appendPart cloneStaff2 prt np"
    using notHere inMaster by (simp add: setPartVisible_def)
  also have "\<dots> = Inr (emit PartsChanged (emit (PartItemChanged (part_id prt)) (apply_edit
      (np2\<lparr>next_ptr := next_ptr np2 + length (part_staves prt),
               score := (score np2)\<lparr>parts :=
                 pre @ partCopy\<lparr>part_staves := part_staves partCopy
                     @ map (\<lambda>(i, st). st\<lparr>staff_ptr := i, staff_part := partId, staff_links := None,
                                           staff_content := cloneStaff2 (staff_content st) m (last (m # ms))\<rparr>)
                         (enumerate (next_ptr np2) (part_staves prt))\<rparr> # post\<rparr>\<rparr>))))"
    using run by (simp add: appendPart_def Let_def np2_def np1_def partCopy_def pid)
  also have "\<dots> = Inr (np\<lparr>score := (score np)\<lparr>parts :=
                 insert_at (resolvePartIndex prt np)
                   (prt\<lparr>part_staves :=
                      map (\<lambda>(i, st). st\<lparr>staff_ptr := i, staff_part := partId, staff_links := None,
                             staff_content := cloneStaff2 (staff_content st)
                                (hd (measures (score np))) (last (measures (score np)))\<rparr>)
                        (enumerate (next_ptr np) (part_staves prt))\<rparr>)
                   (parts (score np))\<rparr>,
               next_ptr := next_ptr np + length (part_staves prt),
               events := events np @ [PrepareChanges, CommitChanges, PartItemChanged partId,
                                      PartsChanged]\<rparr>)"
    using ins' [of "map (\<lambda>(i, st). st\<lparr>staff_ptr := i, staff_part := partId, staff_links := None,
                             staff_content := cloneStaff2 (staff_content st) m (last (m # ms))\<rparr>)
                        (enumerate (next_ptr np) (part_staves prt))"]
    by (simp add: n2 mm pid) (simp add: np2_def np1_def startEdit_def apply_edit_def emit_def partCopy_def)
  finally show ?thesis .
qed

text \<open>
  The theorem on the excerpt that shows the flute only: the violin part of the master arrives
  in front of the flute, with a copy of its staff \<open>S1\<close> and of the music on it.
\<close>

theorem setPartVisible_materializes_master_part_witness:
  "part ''P1'' None ex_excerpt_notation = None
   \<and> part ''P1'' (Some (masterScore ex_excerpt_notation)) ex_excerpt_notation = Some ex_violin_part
   \<and> measures (score ex_excerpt_notation) \<noteq> []
   \<and> list_all (\<lambda>s. staff_ptr s < next_ptr ex_excerpt_notation)
        (Score_staves (score ex_excerpt_notation))
   \<and> (let np' = projr (setPartVisible (\<lambda>content startTick endTick. content) ''P1'' True
                         ex_excerpt_notation)
       in (map (\<lambda>p. (part_id p, map (\<lambda>s. (staff_ptr s, staff_id s, staff_part s, staff_content s))
                                   (part_staves p))) (parts (score np')),
           events np'))
       = ([(''P1'', [(100, ''S1'', ''P1'', [60, 62])]), (''P2'', [(2, ''S2'', ''P2'', [72])])],
          [PrepareChanges, CommitChanges, PartItemChanged ''P1'', PartsChanged])"
proof -
  have h1: "part ''P1'' None ex_excerpt_notation = None"
    by code_simp
  have h2: "part ''P1'' (Some (masterScore ex_excerpt_notation)) ex_excerpt_notation
              = Some ex_violin_part"
    by code_simp
  have h3: "measures (score ex_excerpt_notation) \<noteq> []"
    by code_simp
  have h4: "list_all (\<lambda>s. staff_ptr s < next_ptr ex_excerpt_notation)
              (Score_staves (score ex_excerpt_notation))"
    by code_simp
  note run = setPartVisible_materializes_master_part
               [OF h1 h2 h3 h4, of "\<lambda>content startTick endTick. content"]
  have out: "(let np' = projr (setPartVisible (\<lambda>content startTick endTick. content) ''P1'' True
                         ex_excerpt_notation)
       in (map (\<lambda>p. (part_id p, map (\<lambda>s. (staff_ptr s, staff_id s, staff_part s, staff_content s))
                                   (part_staves p))) (parts (score np')),
           events np'))
       = ([(''P1'', [(100, ''S1'', ''P1'', [60, 62])]), (''P2'', [(2, ''S2'', ''P2'', [72])])],
          [PrepareChanges, CommitChanges, PartItemChanged ''P1'', PartsChanged])"
    unfolding run by code_simp
  show ?thesis using h1 h2 h3 h4 out by blast
qed

subsection \<open>Moving staves to another part\<close>

text \<open>
  A staff is moved by cloning it next to the destination staff and removing the original
  afterwards. The lemmas follow the loop of \<^verbatim>\<open>doMoveStaves\<close> with the invariant
  \<^const>\<open>clone_inv\<close>: the staves that were in the score before the loop are untouched, and
  the new staves, all in the destination part, are the clones made so far.
\<close>

lemma update_first_decompose:
  assumes "list_ex P ps"
  shows "\<exists>pre pc post. ps = pre @ pc # post \<and> P pc \<and> update_first P f ps = pre @ f pc # post"
  using assms
proof (induction ps)
  case Nil
  then show ?case by simp
next
  case (Cons a ps)
  show ?case
  proof (cases "P a")
    case True
    then have "a # ps = [] @ a # ps \<and> P a \<and> update_first P f (a # ps) = [] @ f a # ps" by simp
    then show ?thesis by blast
  next
    case False
    then have "list_ex P ps" using Cons.prems by simp
    then obtain pre pc post where "ps = pre @ pc # post" "P pc"
        "update_first P f ps = pre @ f pc # post"
      using Cons.IH by blast
    then have "a # ps = (a # pre) @ pc # post \<and> P pc
        \<and> update_first P f (a # ps) = (a # pre) @ f pc # post"
      using False by simp
    then show ?thesis by blast
  qed
qed

lemma insertStaff_at_decompose:
  "\<exists>xs ys. stvs = xs @ ys \<and> insertStaff_at i st stvs = xs @ st # ys"
proof (cases "i < 0 \<or> int (length stvs) < i")
  case True
  then have "stvs = stvs @ [] \<and> insertStaff_at i st stvs = stvs @ st # []"
    by (simp add: insertStaff_at_def)
  then show ?thesis by blast
next
  case False
  then have "stvs = take (nat i) stvs @ drop (nat i) stvs
      \<and> insertStaff_at i st stvs = take (nat i) stvs @ st # drop (nat i) stvs"
    by (simp add: insertStaff_at_def)
  then show ?thesis by blast
qed

lemma undoInsertStaff_decompose:
  assumes "list_ex (\<lambda>p. part_id p = staff_part st) (parts sc)"
  shows "\<exists>pre pc post xs ys. parts sc = pre @ pc # post \<and> part_id pc = staff_part st
            \<and> part_staves pc = xs @ ys
            \<and> undoInsertStaff st i sc = sc\<lparr>parts := pre @ pc\<lparr>part_staves := xs @ st # ys\<rparr> # post\<rparr>"
proof -
  obtain pre pc post where d: "parts sc = pre @ pc # post" "part_id pc = staff_part st"
      "update_first (\<lambda>p. part_id p = staff_part st)
         (\<lambda>p. p\<lparr>part_staves := insertStaff_at i st (part_staves p)\<rparr>) (parts sc)
        = pre @ pc\<lparr>part_staves := insertStaff_at i st (part_staves pc)\<rparr> # post"
    using update_first_decompose [OF assms] by blast
  obtain xs ys where s: "part_staves pc = xs @ ys" "insertStaff_at i st (part_staves pc) = xs @ st # ys"
    using insertStaff_at_decompose by blast
  have "undoInsertStaff st i sc = sc\<lparr>parts := pre @ pc\<lparr>part_staves := xs @ st # ys\<rparr> # post\<rparr>"
    unfolding undoInsertStaff_def d(3) s(2) ..
  then show ?thesis using d s by blast
qed

lemma Score_staves_mapStaff:
  "Score_staves (mapStaff q f sc) = map (\<lambda>x. if staff_ptr x = q then f x else x) (Score_staves sc)"
  by (simp add: Score_staves_def mapStaff_def map_concat comp_def)

lemma update_first_decompose_all:
  assumes "list_ex P ps"
  shows "\<exists>pre pc post. ps = pre @ pc # post \<and> P pc \<and> (\<forall>f. update_first P f ps = pre @ f pc # post)"
  using assms
proof (induction ps)
  case Nil
  then show ?case by simp
next
  case (Cons a ps)
  show ?case
  proof (cases "P a")
    case True
    then have "a # ps = [] @ a # ps \<and> P a \<and> (\<forall>f. update_first P f (a # ps) = [] @ f a # ps)" by simp
    then show ?thesis by blast
  next
    case False
    then have "list_ex P ps" using Cons.prems by simp
    then obtain pre pc post where "ps = pre @ pc # post" "P pc"
        "\<forall>f. update_first P f ps = pre @ f pc # post"
      using Cons.IH by blast
    then have "a # ps = (a # pre) @ pc # post \<and> P pc
        \<and> (\<forall>f. update_first P f (a # ps) = (a # pre) @ f pc # post)"
      using False by simp
    then show ?thesis by blast
  qed
qed

lemma insertStaff_at_decompose_all:
  "\<exists>xs ys. stvs = xs @ ys \<and> (\<forall>st. insertStaff_at i st stvs = xs @ st # ys)"
proof (cases "i < 0 \<or> int (length stvs) < i")
  case True
  then have "stvs = stvs @ [] \<and> (\<forall>st. insertStaff_at i st stvs = stvs @ st # [])"
    by (simp add: insertStaff_at_def)
  then show ?thesis by blast
next
  case False
  then have "stvs = take (nat i) stvs @ drop (nat i) stvs
      \<and> (\<forall>st. insertStaff_at i st stvs = take (nat i) stvs @ st # drop (nat i) stvs)"
    by (simp add: insertStaff_at_def)
  then show ?thesis by blast
qed

lemma staffKey_fields:
  "staffKey x = staffKey y \<Longrightarrow> staff_ptr x = staff_ptr y \<and> staff_id x = staff_id y
      \<and> staff_content x = staff_content y \<and> staffMusic x = staffMusic y"
  by (simp add: staffKey_def staffMusic_def)

lemma filter_map_ptr:
  assumes "\<And>x. staff_ptr (g x) = staff_ptr x"
  shows "filter (\<lambda>s. Q (staff_ptr s)) (map g xs) = map g (filter (\<lambda>s. Q (staff_ptr s)) xs)"
  using assms by (induction xs) auto

lemma mapStaff_g_ptr:
  assumes "\<And>x. staff_ptr (f x) = staff_ptr x"
  shows "staff_ptr ((\<lambda>x. if staff_ptr x = q then f x else x) y) = staff_ptr y"
  using assms by simp

lemma mapStaff_g_key:
  assumes "\<And>x. staffKey (f x) = staffKey x"
  shows "staffKey ((\<lambda>x. if staff_ptr x = q then f x else x) y) = staffKey y"
  using assms by simp

lemma clone_inv_mapStaff:
  assumes key: "\<And>x. staffKey (f x) = staffKey x"
      and inv: "clone_inv sc0 n0 d moved np"
  shows "clone_inv sc0 n0 d moved (np\<lparr>score := mapStaff q f (score np)\<rparr>)"
proof -
  let ?g = "\<lambda>x. if staff_ptr x = q then f x else x"
  have gkey: "staffKey (?g y) = staffKey y" for y using key by simp
  then have gptr: "staff_ptr (?g y) = staff_ptr y" for y
    using staffKey_fields [of "?g y" y] by blast
  have gmus: "staffMusic (?g y) = staffMusic y" for y
    using staffKey_fields [OF gkey [of y]] by blast
  have parts_eq: "parts (mapStaff q f (score np))
      = map (\<lambda>p. p\<lparr>part_staves := map ?g (part_staves p)\<rparr>) (parts (score np))"
    by (simp add: mapStaff_def)
  have fold_old: "map staffKey (filter (\<lambda>s. staff_ptr s < n0) (map ?g xs))
      = map staffKey (filter (\<lambda>s. staff_ptr s < n0) xs)" for xs
    using gkey gptr by (induction xs) auto
  have fold_new: "(filter (\<lambda>s. n0 \<le> staff_ptr s) (map ?g xs) = [])
      = (filter (\<lambda>s. n0 \<le> staff_ptr s) xs = [])" for xs
    using gptr by (induction xs) auto
  have mus_new: "map staffMusic (filter (\<lambda>s. n0 \<le> staff_ptr s) (map ?g xs))
      = map staffMusic (filter (\<lambda>s. n0 \<le> staff_ptr s) xs)" for xs
    using gmus gptr by (induction xs) auto
  have all_lt: "list_all (\<lambda>s. staff_ptr s < n) (map ?g xs) = list_all (\<lambda>s. staff_ptr s < n) xs" for xs n
    using gptr by (induction xs) auto
  have i1: "list_all (\<lambda>s. staff_ptr s < next_ptr np) (Score_staves (mapStaff q f (score np)))"
    using inv unfolding Score_staves_mapStaff all_lt by (simp add: clone_inv_def)
  have i2: "map (\<lambda>p. (part_id p, map staffKey (filter (\<lambda>s. staff_ptr s < n0) (part_staves p))))
            (parts (mapStaff q f (score np)))
          = map (\<lambda>p. (part_id p, map staffKey (part_staves p))) (parts sc0)"
    using inv unfolding parts_eq by (simp add: clone_inv_def comp_def fold_old)
  have i3: "list_all (\<lambda>p. part_id p = d \<or> filter (\<lambda>s. n0 \<le> staff_ptr s) (part_staves p) = [])
            (parts (mapStaff q f (score np)))"
    using inv unfolding parts_eq by (simp add: clone_inv_def list_all_iff fold_new)
  have i4: "mset (map staffMusic (filter (\<lambda>s. n0 \<le> staff_ptr s) (Score_staves (mapStaff q f (score np)))))
          = mset (map staffMusic moved)"
    using inv unfolding Score_staves_mapStaff mus_new by (simp add: clone_inv_def)
  have i5: "(mapStaff q f (score np))\<lparr>parts := []\<rparr> = sc0\<lparr>parts := []\<rparr>"
    using inv by (simp add: clone_inv_def mapStaff_def)
  have i0: "n0 \<le> next_ptr np" using inv by (simp add: clone_inv_def)
  show ?thesis unfolding clone_inv_def using i0 i1 i2 i3 i4 i5 by simp
qed

lemma clone_invD:
  assumes "clone_inv sc0 n0 d moved np"
  shows "n0 \<le> next_ptr np"
    and "list_all (\<lambda>s. staff_ptr s < next_ptr np) (Score_staves (score np))"
    and "map (\<lambda>p. (part_id p, map staffKey (filter (\<lambda>s. staff_ptr s < n0) (part_staves p))))
            (parts (score np))
          = map (\<lambda>p. (part_id p, map staffKey (part_staves p))) (parts sc0)"
    and "list_all (\<lambda>p. part_id p = d \<or> filter (\<lambda>s. n0 \<le> staff_ptr s) (part_staves p) = [])
            (parts (score np))"
    and "mset (map staffMusic (filter (\<lambda>s. n0 \<le> staff_ptr s) (Score_staves (score np))))
          = mset (map staffMusic moved)"
    and "(score np)\<lparr>parts := []\<rparr> = sc0\<lparr>parts := []\<rparr>"
  using assms unfolding clone_inv_def by blast+

lemma list_all_ptr_mono:
  "list_all (\<lambda>s. staff_ptr s < (a::nat)) xs \<Longrightarrow> a \<le> b \<Longrightarrow> list_all (\<lambda>s. staff_ptr s < b) xs"
  by (induction xs) auto

lemma clone_inv_next_ptr:
  assumes "clone_inv sc0 n0 d moved np"
  shows "clone_inv sc0 n0 d moved (np\<lparr>next_ptr := next_ptr np + k\<rparr>)"
proof -
  note D = clone_invD [OF assms]
  have "list_all (\<lambda>s. staff_ptr s < next_ptr np + k) (Score_staves (score np))"
    using list_all_ptr_mono [OF D(2), of "next_ptr np + k"] by simp
  then show ?thesis using D(1,3,4,5,6) unfolding clone_inv_def by simp
qed

lemma clone_inv_insert:
  assumes inv: "clone_inv sc0 n0 d moved np"
      and dest: "list_ex (\<lambda>p. part_id p = d) (parts (score np))"
      and ptr: "staff_ptr m = next_ptr np"
      and prt: "staff_part m = d"
      and mus: "staffMusic m = staffMusic st"
  shows "clone_inv sc0 n0 d (moved @ [st])
           (np\<lparr>next_ptr := Suc (next_ptr np), score := undoInsertStaff m idx (score np)\<rparr>)"
proof -
  obtain pre pc post xs ys where dec: "parts (score np) = pre @ pc # post" "part_id pc = d"
      "part_staves pc = xs @ ys"
      "undoInsertStaff m idx (score np)
         = (score np)\<lparr>parts := pre @ pc\<lparr>part_staves := xs @ m # ys\<rparr> # post\<rparr>"
    using undoInsertStaff_decompose [of m "score np" idx] dest prt by auto
  note D = clone_invD [OF inv]
  have n0: "n0 \<le> next_ptr np" using D(1) .
  have new: "n0 \<le> staff_ptr m" "\<not> staff_ptr m < n0" using n0 ptr by simp_all
  have st0: "Score_staves (score np)
      = concat (map part_staves pre) @ xs @ ys @ concat (map part_staves post)"
    by (simp add: Score_staves_def dec)
  have st1: "Score_staves (undoInsertStaff m idx (score np))
      = concat (map part_staves pre) @ xs @ m # ys @ concat (map part_staves post)"
    by (simp add: Score_staves_def dec)
  have "list_all (\<lambda>s. staff_ptr s < Suc (next_ptr np)) (Score_staves (score np))"
    using list_all_ptr_mono [OF D(2), of "Suc (next_ptr np)"] by simp
  then have i1: "list_all (\<lambda>s. staff_ptr s < Suc (next_ptr np)) (Score_staves (undoInsertStaff m idx (score np)))"
    using ptr unfolding st1 st0 by simp
  have i2: "map (\<lambda>p. (part_id p, map staffKey (filter (\<lambda>s. staff_ptr s < n0) (part_staves p))))
            (parts (undoInsertStaff m idx (score np)))
          = map (\<lambda>p. (part_id p, map staffKey (part_staves p))) (parts sc0)"
    using D(3) new by (simp add: dec)
  have i3: "list_all (\<lambda>p. part_id p = d \<or> filter (\<lambda>s. n0 \<le> staff_ptr s) (part_staves p) = [])
            (parts (undoInsertStaff m idx (score np)))"
    using D(4) new by (simp add: dec)
  have i4: "mset (map staffMusic (filter (\<lambda>s. n0 \<le> staff_ptr s) (Score_staves (undoInsertStaff m idx (score np)))))
          = mset (map staffMusic (moved @ [st]))"
    using D(5) new mus unfolding st1 st0 by simp
  have i5: "(undoInsertStaff m idx (score np))\<lparr>parts := []\<rparr> = sc0\<lparr>parts := []\<rparr>"
    using D(6) by (simp add: dec)
  show ?thesis unfolding clone_inv_def using n0 i1 i2 i3 i4 i5 by simp
qed

lemma mapStaff_undoInsertStaff:
  assumes fresh: "list_all (\<lambda>s. staff_ptr s \<noteq> staff_ptr m) (Score_staves sc)"
      and prt: "staff_part (f m) = staff_part m"
  shows "mapStaff (staff_ptr m) f (undoInsertStaff m idx sc) = undoInsertStaff (f m) idx sc"
proof (cases "list_ex (\<lambda>p. part_id p = staff_part m) (parts sc)")
  case True
  obtain pre pc post where d: "parts sc = pre @ pc # post" "part_id pc = staff_part m"
      "\<And>g. update_first (\<lambda>p. part_id p = staff_part m) g (parts sc) = pre @ g pc # post"
    using update_first_decompose_all [OF True] by blast
  obtain xs ys where s: "part_staves pc = xs @ ys"
      "\<And>st. insertStaff_at idx st (part_staves pc) = xs @ st # ys"
    using insertStaff_at_decompose_all by blast
  have fr: "list_all (\<lambda>p. list_all (\<lambda>s. staff_ptr s \<noteq> staff_ptr m) (part_staves p)) pre"
       "list_all (\<lambda>p. list_all (\<lambda>s. staff_ptr s \<noteq> staff_ptr m) (part_staves p)) post"
       "list_all (\<lambda>s. staff_ptr s \<noteq> staff_ptr m) xs" "list_all (\<lambda>s. staff_ptr s \<noteq> staff_ptr m) ys"
    using fresh by (simp_all add: Score_staves_def d s list_all_concat_staves)
  have l: "undoInsertStaff m idx sc = sc\<lparr>parts := pre @ pc\<lparr>part_staves := xs @ m # ys\<rparr> # post\<rparr>"
    unfolding undoInsertStaff_def d(3) s(2) ..
  have r: "undoInsertStaff (f m) idx sc = sc\<lparr>parts := pre @ pc\<lparr>part_staves := xs @ f m # ys\<rparr> # post\<rparr>"
    unfolding undoInsertStaff_def prt d(3) s(2) ..
  show ?thesis unfolding l r using fr
    by (simp add: mapStaff_def map_parts_other map_staves_other)
next
  case False
  have noop: "update_first P g ps = ps" if "\<not> list_ex P ps" for P g and ps :: "Part list"
    using that by (induction ps) auto
  have "undoInsertStaff m idx sc = sc" "undoInsertStaff (f m) idx sc = sc"
    using False noop by (simp_all add: undoInsertStaff_def prt)
  moreover have "mapStaff (staff_ptr m) f sc = sc"
    using fresh by (simp add: mapStaff_def Score_staves_def list_all_concat_staves map_parts_other)
  ultimately show ?thesis by simp
qed

lemma mapStaff_commute:
  assumes "a \<noteq> b" and "\<And>x. staff_ptr (f x) = staff_ptr x" and "\<And>x. staff_ptr (g x) = staff_ptr x"
  shows "mapStaff a f (mapStaff b g sc) = mapStaff b g (mapStaff a f sc)"
  using assms by (simp add: mapStaff_def comp_def)

lemma find_filter_imp:
  assumes "\<And>x. P x \<Longrightarrow> Q x"
  shows "find P (filter Q xs) = find P xs"
  using assms by (induction xs) auto

lemma find_same_keys:
  assumes "map staffKey xs = map staffKey ys"
  shows "map_option staffKey (find (\<lambda>x. staff_ptr x = a) xs)
           = map_option staffKey (find (\<lambda>x. staff_ptr x = a) ys)"
  using assms
proof (induction xs arbitrary: ys)
  case Nil
  then show ?case by simp
next
  case (Cons x xs)
  then obtain y ys' where ys: "ys = y # ys'" by (cases ys) auto
  then have k: "staffKey x = staffKey y" and r: "map staffKey xs = map staffKey ys'"
    using Cons.prems by simp_all
  have "staff_ptr x = staff_ptr y" using staffKey_fields [OF k] by blast
  then show ?case using Cons.IH [OF r] k ys by simp
qed

lemma find_distinct_member:
  assumes "distinct (map f xs)" and "x \<in> set xs"
  shows "find (\<lambda>y. f y = f x) xs = Some x"
  using assms by (induction xs) (auto simp: image_iff)

lemma old_staves_keys:
  assumes "map (\<lambda>p. (part_id p, map staffKey (filter (\<lambda>s. staff_ptr s < n0) (part_staves p)))) ps
          = map (\<lambda>p. (part_id p, map staffKey (part_staves p))) ps0"
  shows "map staffKey (filter (\<lambda>s. staff_ptr s < n0) (concat (map part_staves ps)))
          = map staffKey (concat (map part_staves ps0))"
  using assms
proof (induction ps arbitrary: ps0)
  case Nil
  then show ?case by simp
next
  case (Cons p ps)
  then obtain q qs where q: "ps0 = q # qs" by (cases ps0) auto
  then show ?case using Cons.prems Cons.IH [of qs] by simp
qed

lemma clone_inv_old_keys:
  assumes "clone_inv sc0 n0 d moved np"
  shows "map staffKey (filter (\<lambda>s. staff_ptr s < n0) (Score_staves (score np)))
           = map staffKey (Score_staves sc0)"
  unfolding Score_staves_def using clone_invD(3) [OF assms] by (rule old_staves_keys)

lemma clone_inv_deref:
  assumes inv: "clone_inv sc0 n0 d moved np"
      and mem: "st \<in> set (Score_staves sc0)"
      and dist: "distinct (map staff_ptr (Score_staves sc0))"
      and old: "list_all (\<lambda>s. staff_ptr s < n0) (Score_staves sc0)"
      and same: "staff_ptr st' = staff_ptr st"
  shows "staffKey (deref_staff st' (score np)) = staffKey st"
proof -
  have lt: "staff_ptr st < n0" using old mem by (simp add: list_all_iff)
  have "find (\<lambda>x. staff_ptr x = staff_ptr st) (Score_staves (score np))
      = find (\<lambda>x. staff_ptr x = staff_ptr st) (filter (\<lambda>s. staff_ptr s < n0) (Score_staves (score np)))"
    using lt by (intro find_filter_imp [symmetric]) simp
  then have "map_option staffKey (find (\<lambda>x. staff_ptr x = staff_ptr st) (Score_staves (score np)))
      = map_option staffKey (find (\<lambda>x. staff_ptr x = staff_ptr st) (Score_staves sc0))"
    using find_same_keys [OF clone_inv_old_keys [OF inv], of "staff_ptr st"] by simp
  also have "\<dots> = Some (staffKey st)"
    using find_distinct_member [OF dist mem] by simp
  finally obtain cur where "find (\<lambda>x. staff_ptr x = staff_ptr st) (Score_staves (score np)) = Some cur"
      "staffKey cur = staffKey st"
    by auto
  then show ?thesis by (simp add: deref_staff_def same)
qed

lemma clone_inv_dest:
  assumes inv: "clone_inv sc0 n0 d moved np"
      and dest: "list_ex (\<lambda>p. part_id p = d) (parts sc0)"
  shows "list_ex (\<lambda>p. part_id p = d) (parts (score np))"
proof -
  have "map fst (map (\<lambda>p. (part_id p, map staffKey (filter (\<lambda>s. staff_ptr s < n0) (part_staves p))))
            (parts (score np)))
          = map fst (map (\<lambda>p. (part_id p, map staffKey (part_staves p))) (parts sc0))"
    using clone_invD(3) [OF inv] by simp
  then have "map part_id (parts (score np)) = map part_id (parts sc0)"
    by (simp add: comp_def)
  then have eq: "part_id ` set (parts (score np)) = part_id ` set (parts sc0)"
    by (metis set_map)
  have "d \<in> part_id ` set (parts sc0)" using dest unfolding list_ex_iff by force
  then have "d \<in> part_id ` set (parts (score np))" unfolding eq .
  then show ?thesis unfolding list_ex_iff by force
qed

lemma np_update_swap:
  "np\<lparr>next_ptr := a, score := b\<rparr> = np\<lparr>score := b, next_ptr := a\<rparr>"
  by simp

lemma cloneStaff_Some:
  assumes "staff_links (deref_staff src (score np)) = Some g"
  shows "cloneStaff src dst np
     = np\<lparr>score := mapStaff (staff_ptr dst)
              (\<lambda>x. x\<lparr>staff_content := staff_content (deref_staff src (score np)),
                       staff_links := Some g\<rparr>) (score np)\<rparr>"
  using assms by (simp add: cloneStaff_def Let_def)

lemma cloneStaff_None:
  assumes "staff_links (deref_staff src (score np)) = None"
  shows "cloneStaff src dst np
     = np\<lparr>score := mapStaff (staff_ptr dst)
              (\<lambda>x. x\<lparr>staff_content := staff_content (deref_staff src (score np)),
                       staff_links := Some (next_ptr np)\<rparr>)
              (mapStaff (staff_ptr src) (\<lambda>x. x\<lparr>staff_links := Some (next_ptr np)\<rparr>) (score np)),
           next_ptr := Suc (next_ptr np)\<rparr>"
  using assms by (simp add: cloneStaff_def Let_def)

lemma clone_step:
  assumes inv: "clone_inv sc0 n0 d moved np"
      and dest: "list_ex (\<lambda>p. part_id p = d) (parts sc0)"
      and mem: "st \<in> set (Score_staves sc0)"
      and dist: "distinct (map staff_ptr (Score_staves sc0))"
      and old: "list_all (\<lambda>s. staff_ptr s < n0) (Score_staves sc0)"
  shows "\<exists>np'. doMoveStaves_clone (st # rest) idx (Some d) np
                  = doMoveStaves_clone rest (idx + 1) (Some d) np'
            \<and> clone_inv sc0 n0 d (moved @ [st]) np'"
proof -
  note D = clone_invD [OF inv]
  define n where "n = next_ptr np"
  define cur where "cur = deref_staff st (score np)"
  define m0 where "m0 = (Staff_clone cur n)\<lparr>staff_part := d\<rparr>"
  define np1 where "np1 = np\<lparr>next_ptr := n + 1, score := undoInsertStaff m0 idx (score np)\<rparr>"
  define np2 where "np2 = cloneStaff cur m0 np1"
  define np3 where "np3 = (if \<not> Staff_isLinked cur (score np)
                           then np2\<lparr>score := undoUnlink m0 (score np2)\<rparr> else np2)"
  have step: "doMoveStaves_clone (st # rest) idx (Some d) np
                = doMoveStaves_clone rest (idx + 1) (Some d) np3"
    by (simp add: Let_def np3_def np2_def np1_def m0_def cur_def n_def)
  have kcur: "staffKey cur = staffKey st"
    unfolding cur_def by (rule clone_inv_deref [OF inv mem dist old refl])
  have "staff_ptr st < n0" using old mem by (simp add: list_all_iff)
  then have pcur: "staff_ptr cur \<noteq> n" "n \<noteq> staff_ptr cur"
    using staffKey_fields [OF kcur] D(1) by (simp_all add: n_def)
  have m0f: "staff_ptr m0 = n" "staff_part m0 = d" "staff_id m0 = staff_id st"
    using staffKey_fields [OF kcur] by (simp_all add: m0_def Staff_clone_def)
  have fresh: "list_all (\<lambda>s. staff_ptr s \<noteq> n) (Score_staves (score np))"
    using D(2) unfolding n_def by (rule list_all_less_neq)
  have dest_np: "list_ex (\<lambda>p. part_id p = d) (parts (score np))"
    by (rule clone_inv_dest [OF inv dest])
  have inv1: "clone_inv sc0 n0 d (moved @ [m0]) np1"
    unfolding np1_def n_def
    using clone_inv_insert [OF inv dest_np m0f(1) [unfolded n_def] m0f(2) refl, of idx] by simp
  define s where "s = deref_staff cur (score np1)"
  have ks: "staffKey s = staffKey st"
    unfolding s_def using staffKey_fields [OF kcur]
    by (intro clone_inv_deref [OF inv1 mem dist old]) simp
  have base: "clone_inv sc0 n0 d (moved @ [st])
                (np\<lparr>score := undoInsertStaff mF idx (score np), next_ptr := Suc n + k\<rparr>)"
    if "staff_ptr mF = n" "staff_part mF = d" "staffMusic mF = staffMusic st" for mF k
    using clone_inv_next_ptr
            [OF clone_inv_insert [OF inv dest_np that(1) [unfolded n_def] that(2) that(3), of idx], of k]
    by (simp add: n_def np_update_swap)
  have base2: "clone_inv sc0 n0 d (moved @ [st])
                (np\<lparr>score := mapStaff a h (undoInsertStaff mF idx (score np)),
                     next_ptr := Suc n + k\<rparr>)"
    if "staff_ptr mF = n" "staff_part mF = d" "staffMusic mF = staffMusic st"
       "\<And>x. staffKey (h x) = staffKey x" for mF k a h
    using clone_inv_mapStaff [OF that(4) base [OF that(1,2,3), of k], of a]
    by (simp add: np_update_swap)
  have R1: "mapStaff n f (undoInsertStaff m idx (score np)) = undoInsertStaff (f m) idx (score np)"
    if "staff_ptr m = n" "staff_part (f m) = staff_part m" for f m
    using mapStaff_undoInsertStaff [of m "score np" f idx] fresh that by simp
  have R2: "mapStaff n f (mapStaff (staff_ptr cur) h X) = mapStaff (staff_ptr cur) h (mapStaff n f X)"
    if "\<And>x. staff_ptr (f x) = staff_ptr x" "\<And>x. staff_ptr (h x) = staff_ptr x" for f h X
    using mapStaff_commute [OF pcur(2) that] .
  have mus: "staffMusic (m0\<lparr>staff_content := staff_content s, staff_links := l\<rparr>) = staffMusic st" for l
    using staffKey_fields [OF ks] m0f by (simp add: staffMusic_def)
  have sc1: "score np1 = undoInsertStaff m0 idx (score np)" "next_ptr np1 = Suc n"
    by (simp_all add: np1_def)
  have "clone_inv sc0 n0 d (moved @ [st]) np3"
  proof (cases "staff_links s")
    case (Some g)
    let ?F = "\<lambda>x. x\<lparr>staff_content := staff_content s, staff_links := Some g\<rparr>"
    have "np2 = np1\<lparr>score := mapStaff (staff_ptr m0) ?F (score np1)\<rparr>"
      unfolding np2_def s_def using cloneStaff_Some [of cur np1 g m0] Some
      by (simp add: s_def)
    also have "\<dots> = np1\<lparr>score := undoInsertStaff (?F m0) idx (score np)\<rparr>"
      unfolding sc1 m0f(1) using R1 [of m0 ?F] m0f by simp
    finally have e2: "np2 = np\<lparr>score := undoInsertStaff (?F m0) idx (score np),
                                next_ptr := Suc n + 0\<rparr>"
      by (simp add: np1_def)
    show ?thesis
    proof (cases "Staff_isLinked cur (score np)")
      case True
      then have "np3 = np2" by (simp add: np3_def)
      then show ?thesis unfolding e2 using base [OF _ _ mus [of "Some g"], of 0] m0f by simp
    next
      case False
      then have "np3 = np2\<lparr>score := mapStaff n (\<lambda>x. x\<lparr>staff_links := None\<rparr>) (score np2)\<rparr>"
        by (simp add: np3_def undoUnlink_def m0f)
      also have "\<dots> = np\<lparr>score := undoInsertStaff
            (m0\<lparr>staff_content := staff_content s, staff_links := None\<rparr>) idx (score np),
          next_ptr := Suc n + 0\<rparr>"
        unfolding e2 using R1 [of "?F m0" "\<lambda>x. x\<lparr>staff_links := None\<rparr>"] m0f by simp
      finally show ?thesis using base [OF _ _ mus [of None], of 0] m0f by simp
    qed
  next
    case None
    define g where "g = Suc n"
    let ?F = "\<lambda>x. x\<lparr>staff_content := staff_content s, staff_links := Some g\<rparr>"
    let ?H = "\<lambda>x. x\<lparr>staff_links := Some g\<rparr>"
    have "np2 = np1\<lparr>score := mapStaff (staff_ptr m0) ?F (mapStaff (staff_ptr cur) ?H (score np1)),
                      next_ptr := Suc (next_ptr np1)\<rparr>"
      unfolding np2_def g_def sc1(2) [symmetric] using cloneStaff_None [of cur np1 m0] None
      by (simp add: s_def)
    also have "\<dots> = np1\<lparr>score := mapStaff (staff_ptr cur) ?H (undoInsertStaff (?F m0) idx (score np)),
                      next_ptr := Suc (Suc n)\<rparr>"
      unfolding sc1 m0f(1) using R1 [of m0 ?F] R2 [of ?F ?H] m0f by simp
    finally have e2: "np2 = np\<lparr>score := mapStaff (staff_ptr cur) ?H
                                  (undoInsertStaff (?F m0) idx (score np)),
                                next_ptr := Suc n + 1\<rparr>"
      by (simp add: np1_def)
    have hk: "staffKey (?H x) = staffKey x" for x
      by (simp add: staffKey_def)
    show ?thesis
    proof (cases "Staff_isLinked cur (score np)")
      case True
      then have "np3 = np2" by (simp add: np3_def)
      then show ?thesis unfolding e2
        using base2 [OF _ _ mus [of "Some g"] hk, of 1 "staff_ptr cur"] m0f by simp
    next
      case False
      then have "np3 = np2\<lparr>score := mapStaff n (\<lambda>x. x\<lparr>staff_links := None\<rparr>) (score np2)\<rparr>"
        by (simp add: np3_def undoUnlink_def m0f)
      also have "\<dots> = np\<lparr>score := mapStaff (staff_ptr cur) ?H (undoInsertStaff
            (m0\<lparr>staff_content := staff_content s, staff_links := None\<rparr>) idx (score np)),
          next_ptr := Suc n + 1\<rparr>"
        unfolding e2 using R1 [of "?F m0" "\<lambda>x. x\<lparr>staff_links := None\<rparr>"]
            R2 [of "\<lambda>x. x\<lparr>staff_links := None\<rparr>" ?H] m0f by simp
      finally show ?thesis using base2 [OF _ _ mus [of None] hk, of 1 "staff_ptr cur"] m0f by simp
    qed
  qed
  then show ?thesis using step by blast
qed

lemma clone_loop:
  assumes "clone_inv sc0 n0 d moved np"
      and "list_ex (\<lambda>p. part_id p = d) (parts sc0)"
      and "set S \<subseteq> set (Score_staves sc0)"
      and "distinct (map staff_ptr (Score_staves sc0))"
      and "list_all (\<lambda>s. staff_ptr s < n0) (Score_staves sc0)"
  shows "clone_inv sc0 n0 d (moved @ S) (doMoveStaves_clone S idx (Some d) np)"
  using assms
proof (induction S arbitrary: moved np idx)
  case Nil
  then show ?case by simp
next
  case (Cons st rest)
  have mem: "st \<in> set (Score_staves sc0)" and sub: "set rest \<subseteq> set (Score_staves sc0)"
    using Cons.prems(3) by simp_all
  obtain np' where s: "doMoveStaves_clone (st # rest) idx (Some d) np
                  = doMoveStaves_clone rest (idx + 1) (Some d) np'"
      and i: "clone_inv sc0 n0 d (moved @ [st]) np'"
    using clone_step [OF Cons.prems(1,2) mem Cons.prems(4,5)] by blast
  show ?case unfolding s
    using Cons.IH [OF i Cons.prems(2) sub Cons.prems(4,5), of "idx + 1"] by simp
qed

lemma clone_inv_start:
  assumes "list_all (\<lambda>s. staff_ptr s < next_ptr np) (Score_staves (score np))"
  shows "clone_inv (score np) (next_ptr np) d [] np"
proof -
  have f1: "filter (\<lambda>s. staff_ptr s < next_ptr np) xs = xs"
    if "list_all (\<lambda>s. staff_ptr s < next_ptr np) xs" for xs
    using that by (induction xs) auto
  have f2: "filter (\<lambda>s. next_ptr np \<le> staff_ptr s) xs = []"
    if "list_all (\<lambda>s. staff_ptr s < next_ptr np) xs" for xs
    using that by (induction xs) auto
  have per: "list_all (\<lambda>p. list_all (\<lambda>s. staff_ptr s < next_ptr np) (part_staves p)) (parts (score np))"
    using assms by (simp add: Score_staves_def list_all_concat_staves)
  have i2: "map (\<lambda>p. (part_id p, map staffKey (filter (\<lambda>s. staff_ptr s < next_ptr np) (part_staves p))))
            (parts (score np))
          = map (\<lambda>p. (part_id p, map staffKey (part_staves p))) (parts (score np))"
    using per by (induction "parts (score np)") (simp_all add: list_all_iff f1)
  have i3: "list_all (\<lambda>p. part_id p = d \<or> filter (\<lambda>s. next_ptr np \<le> staff_ptr s) (part_staves p) = [])
            (parts (score np))"
    using per by (simp add: list_all_iff f2)
  show ?thesis unfolding clone_inv_def using assms i2 i3 f2 [OF assms] by simp
qed

lemma doMoveStaves_clone_frame:
  "(doMoveStaves_clone S idx dp np)\<lparr>score := X, next_ptr := Y\<rparr> = np\<lparr>score := X, next_ptr := Y\<rparr>"
proof (induction S arbitrary: idx np)
  case Nil
  then show ?case by simp
next
  case (Cons st rest)
  have c: "(cloneStaff a b n)\<lparr>score := X, next_ptr := Y\<rparr> = n\<lparr>score := X, next_ptr := Y\<rparr>" for a b n
    by (simp add: cloneStaff_def Let_def split: option.splits)
  show ?case
    apply (subst doMoveStaves_clone.simps)
    apply (simp only: Let_def)
    apply (subst Cons.IH)
    apply (simp add: c split: if_splits)
    done
qed

lemma foldl_undoRemoveStaff:
  "foldl (\<lambda>sc st. undoRemoveStaff st sc) sc S
     = sc\<lparr>parts := map (\<lambda>p. p\<lparr>part_staves :=
                filter (\<lambda>x. staff_ptr x \<notin> staff_ptr ` set S) (part_staves p)\<rparr>) (parts sc)\<rparr>"
proof (induction S arbitrary: sc)
  case Nil
  have "map (\<lambda>p. p\<lparr>part_staves := part_staves p\<rparr>) ps = ps" for ps :: "Part list"
    by (induction ps) auto
  then show ?case by simp
next
  case (Cons st rest)
  have "foldl (\<lambda>sc st. undoRemoveStaff st sc) sc (st # rest)
      = foldl (\<lambda>sc st. undoRemoveStaff st sc) (undoRemoveStaff st sc) rest"
    by simp
  also have "\<dots> = (undoRemoveStaff st sc)\<lparr>parts := map (\<lambda>p. p\<lparr>part_staves :=
                filter (\<lambda>x. staff_ptr x \<notin> staff_ptr ` set rest) (part_staves p)\<rparr>)
                   (parts (undoRemoveStaff st sc))\<rparr>"
    by (rule Cons.IH)
  also have "\<dots> = sc\<lparr>parts := map (\<lambda>p. p\<lparr>part_staves :=
                filter (\<lambda>x. staff_ptr x \<notin> staff_ptr ` set (st # rest)) (part_staves p)\<rparr>) (parts sc)\<rparr>"
    by (simp add: undoRemoveStaff_def comp_def conj_commute)
  finally show ?case .
qed

lemma keys_filter:
  assumes "map staffKey xs = map staffKey ys"
  shows "map staffKey (filter (\<lambda>s. Q (staff_ptr s)) xs) = map staffKey (filter (\<lambda>s. Q (staff_ptr s)) ys)"
  using assms
proof (induction xs arbitrary: ys)
  case Nil
  then show ?case by simp
next
  case (Cons x xs)
  then obtain y ys' where ys: "ys = y # ys'" by (cases ys) auto
  then have k: "staffKey x = staffKey y" and r: "map staffKey xs = map staffKey ys'"
    using Cons.prems by simp_all
  have "staff_ptr x = staff_ptr y" using staffKey_fields [OF k] by blast
  then show ?case using Cons.IH [OF r] k ys by simp
qed

lemma keys_music:
  assumes "map staffKey xs = map staffKey ys"
  shows "map staffMusic xs = map staffMusic ys"
  using assms
proof (induction xs arbitrary: ys)
  case Nil
  then show ?case by simp
next
  case (Cons x xs)
  then obtain y ys' where ys: "ys = y # ys'" by (cases ys) auto
  then have k: "staffKey x = staffKey y" and r: "map staffKey xs = map staffKey ys'"
    using Cons.prems by simp_all
  show ?case using Cons.IH [OF r] staffKey_fields [OF k] ys by simp
qed

lemma Score_staves_filter_parts:
  "concat (map part_staves (map (\<lambda>p. p\<lparr>part_staves := filter Q (part_staves p)\<rparr>) ps))
     = filter Q (concat (map part_staves ps))"
  by (induction ps) auto

lemma Score_staves_filter_parts_comp:
  "concat (map (part_staves \<circ> (\<lambda>p. p\<lparr>part_staves := filter Q (part_staves p)\<rparr>)) ps)
     = filter Q (concat (map part_staves ps))"
  by (induction ps) auto

lemma mset_map_filter_split:
  "mset (map f (filter Q xs))
     = mset (map f (filter (\<lambda>x. Q x \<and> R x) xs)) + mset (map f (filter (\<lambda>x. Q x \<and> \<not> R x) xs))"
  by (induction xs) auto

lemma mset_map_partition:
  "mset (map f (filter (\<lambda>x. \<not> Q x) xs)) + mset (map f (filter Q xs)) = mset (map f xs)"
  by (induction xs) auto

lemma mset_moved:
  assumes "distinct (map staff_ptr Y)" and "distinct S" and "set S \<subseteq> set Y"
  shows "mset (filter (\<lambda>x. staff_ptr x \<in> staff_ptr ` set S) Y) = mset S"
proof -
  have inj: "inj_on staff_ptr (set Y)" and dY: "distinct Y"
    using assms(1) by (simp_all add: distinct_map)
  have seteq: "set (filter (\<lambda>x. staff_ptr x \<in> staff_ptr ` set S) Y) = set S"
  proof
    show "set (filter (\<lambda>x. staff_ptr x \<in> staff_ptr ` set S) Y) \<subseteq> set S"
    proof
      fix x assume "x \<in> set (filter (\<lambda>x. staff_ptr x \<in> staff_ptr ` set S) Y)"
      then have xY: "x \<in> set Y" and "staff_ptr x \<in> staff_ptr ` set S" by simp_all
      then obtain s where s: "s \<in> set S" "staff_ptr x = staff_ptr s" by blast
      then have "s \<in> set Y" using assms(3) by blast
      then have "x = s" using inj xY s(2) by (simp add: inj_on_def)
      then show "x \<in> set S" using s(1) by simp
    qed
    show "set S \<subseteq> set (filter (\<lambda>x. staff_ptr x \<in> staff_ptr ` set S) Y)"
      using assms(3) by auto
  qed
  have df: "distinct (filter (\<lambda>x. staff_ptr x \<in> staff_ptr ` set S) Y)"
    using dY by simp
  show ?thesis
    using set_eq_iff_mset_eq_distinct [OF df assms(2)] seteq by blast
qed

lemma parts_keys_filter:
  assumes "map (\<lambda>p. (part_id p, map staffKey (filter (\<lambda>s. staff_ptr s < n0) (part_staves p)))) ps
          = map (\<lambda>p. (part_id p, map staffKey (part_staves p))) ps0"
  shows "map (\<lambda>p. (part_id p, map staffKey (filter (\<lambda>s. staff_ptr s < n0)
                     (filter (\<lambda>s. Q (staff_ptr s)) (part_staves p))))) ps
          = map (\<lambda>p. (part_id p, map staffKey (filter (\<lambda>s. Q (staff_ptr s)) (part_staves p)))) ps0"
  using assms
proof (induction ps arbitrary: ps0)
  case Nil
  then show ?case by simp
next
  case (Cons p ps)
  then obtain q qs where q: "ps0 = q # qs" by (cases ps0) auto
  have h: "map staffKey (filter (\<lambda>s. staff_ptr s < n0) (part_staves p)) = map staffKey (part_staves q)"
      and i: "part_id p = part_id q"
    using Cons.prems q by simp_all
  have "filter (\<lambda>s. staff_ptr s < n0) (filter (\<lambda>s. Q (staff_ptr s)) (part_staves p))
      = filter (\<lambda>s. Q (staff_ptr s)) (filter (\<lambda>s. staff_ptr s < n0) (part_staves p))"
    by (simp add: conj_commute)
  then have "map staffKey (filter (\<lambda>s. staff_ptr s < n0) (filter (\<lambda>s. Q (staff_ptr s)) (part_staves p)))
      = map staffKey (filter (\<lambda>s. Q (staff_ptr s)) (part_staves q))"
    using keys_filter [OF h, of Q] by simp
  then show ?case using Cons.prems Cons.IH [of qs] q i by simp
qed

lemma doMoveStaves_effect:
  assumes fresh: "list_all (\<lambda>s. staff_ptr s < next_ptr np) (Score_staves (score np))"
      and dest: "list_ex (\<lambda>p. part_id p = d) (parts (score np))"
      and sub: "set S \<subseteq> set (Score_staves (score np))"
      and dS: "distinct S"
      and dist: "distinct (map staff_ptr (Score_staves (score np)))"
  shows "mset (map staffMusic (Score_staves (score (doMoveStaves S idx (Some d) np))))
           = mset (map staffMusic (Score_staves (score np)))"
    and "map (\<lambda>p. (part_id p, map staffKey (filter (\<lambda>s. staff_ptr s < next_ptr np) (part_staves p))))
            (parts (score (doMoveStaves S idx (Some d) np)))
          = map (\<lambda>p. (part_id p, map staffKey
                    (filter (\<lambda>s. staff_ptr s \<notin> staff_ptr ` set S) (part_staves p))))
              (parts (score np))"
    and "list_all (\<lambda>p. part_id p = d \<or> filter (\<lambda>s. next_ptr np \<le> staff_ptr s) (part_staves p) = [])
            (parts (score (doMoveStaves S idx (Some d) np)))"
    and "mset (map staffMusic (filter (\<lambda>s. next_ptr np \<le> staff_ptr s)
                 (Score_staves (score (doMoveStaves S idx (Some d) np)))))
           = mset (map staffMusic S)"
    and "(doMoveStaves S idx (Some d) np)\<lparr>score := X, next_ptr := Y\<rparr> = np\<lparr>score := X, next_ptr := Y\<rparr>"
    and "(score (doMoveStaves S idx (Some d) np))\<lparr>parts := []\<rparr> = (score np)\<lparr>parts := []\<rparr>"
proof -
  let ?n0 = "next_ptr np"
  let ?P = "staff_ptr ` set S"
  let ?Y0 = "Score_staves (score np)"
  define npK where "npK = doMoveStaves_clone S idx (Some d) np"
  let ?X = "Score_staves (score npK)"
  have inv: "clone_inv (score np) ?n0 d S npK"
    unfolding npK_def
    using clone_loop [OF clone_inv_start [OF fresh] dest sub dist fresh, of idx] by simp
  note D = clone_invD [OF inv]
  have res: "score (doMoveStaves S idx (Some d) np)
      = (score npK)\<lparr>parts := map (\<lambda>p. p\<lparr>part_staves :=
                filter (\<lambda>x. staff_ptr x \<notin> ?P) (part_staves p)\<rparr>) (parts (score npK))\<rparr>"
    by (simp add: doMoveStaves_def Let_def npK_def [symmetric] foldl_undoRemoveStaff)
  have stv: "Score_staves (score (doMoveStaves S idx (Some d) np)) = filter (\<lambda>x. staff_ptr x \<notin> ?P) ?X"
    unfolding res by (simp add: Score_staves_def Score_staves_filter_parts_comp)
  have oldP: "staff_ptr x \<notin> ?P" if "?n0 \<le> staff_ptr x" for x
  proof
    assume "staff_ptr x \<in> ?P"
    then obtain s where "s \<in> set S" "staff_ptr x = staff_ptr s" by blast
    then have "staff_ptr x < ?n0" using sub fresh by (auto simp: list_all_iff)
    then show False using that by simp
  qed
  have newf: "filter (\<lambda>x. staff_ptr x \<notin> ?P \<and> \<not> staff_ptr x < ?n0) zs = filter (\<lambda>s. ?n0 \<le> staff_ptr s) zs" for zs
  proof (rule filter_cong [OF refl])
    fix x
    show "(staff_ptr x \<notin> ?P \<and> \<not> staff_ptr x < ?n0) = (?n0 \<le> staff_ptr x)"
      using oldP [of x] by (metis not_less)
  qed
  have newf2: "filter (\<lambda>s. ?n0 \<le> staff_ptr s) (filter (\<lambda>x. staff_ptr x \<notin> ?P) zs)
      = filter (\<lambda>s. ?n0 \<le> staff_ptr s) zs" for zs
  proof -
    have "filter (\<lambda>s. ?n0 \<le> staff_ptr s) (filter (\<lambda>x. staff_ptr x \<notin> ?P) zs)
        = filter (\<lambda>x. staff_ptr x \<notin> ?P \<and> ?n0 \<le> staff_ptr x) zs"
      by simp
    also have "\<dots> = filter (\<lambda>s. ?n0 \<le> staff_ptr s) zs"
    proof (rule filter_cong [OF refl])
      fix x
      show "(staff_ptr x \<notin> ?P \<and> ?n0 \<le> staff_ptr x) = (?n0 \<le> staff_ptr x)"
        using oldP [of x] by metis
    qed
    finally show ?thesis .
  qed
  have newf3: "filter (\<lambda>x. staff_ptr x \<notin> ?P \<and> ?n0 \<le> staff_ptr x) zs
      = filter (\<lambda>s. ?n0 \<le> staff_ptr s) zs" for zs
    using newf2 [of zs] by simp
  have oldf: "filter (\<lambda>x. staff_ptr x \<notin> ?P \<and> staff_ptr x < ?n0) zs
      = filter (\<lambda>x. staff_ptr x \<notin> ?P) (filter (\<lambda>s. staff_ptr s < ?n0) zs)" for zs
    by (simp add: conj_commute)
  have keys: "map staffKey (filter (\<lambda>s. staff_ptr s < ?n0) ?X) = map staffKey ?Y0"
    by (rule clone_inv_old_keys [OF inv])
  have keysP: "map staffKey (filter (\<lambda>x. staff_ptr x \<notin> ?P) (filter (\<lambda>s. staff_ptr s < ?n0) ?X))
      = map staffKey (filter (\<lambda>x. staff_ptr x \<notin> ?P) ?Y0)"
    using keys_filter [OF keys, of "\<lambda>q. q \<notin> ?P"] .
  have stay: "mset (map staffMusic (filter (\<lambda>x. staff_ptr x \<notin> ?P \<and> staff_ptr x < ?n0) ?X))
      = mset (map staffMusic (filter (\<lambda>x. staff_ptr x \<notin> ?P) ?Y0))"
    unfolding oldf using keys_music [OF keysP] by simp
  have "mset (map staffMusic (filter (\<lambda>x. staff_ptr x \<notin> ?P) ?X))
      = mset (map staffMusic (filter (\<lambda>x. staff_ptr x \<notin> ?P) ?Y0)) + mset (map staffMusic S)"
    unfolding mset_map_filter_split [of staffMusic "\<lambda>x. staff_ptr x \<notin> ?P" ?X "\<lambda>x. staff_ptr x < ?n0"]
      stay newf D(5) by simp
  also have "\<dots> = mset (map staffMusic (filter (\<lambda>x. staff_ptr x \<notin> ?P) ?Y0))
                   + mset (map staffMusic (filter (\<lambda>x. staff_ptr x \<in> ?P) ?Y0))"
    using mset_moved [OF dist dS sub] by (metis mset_map)
  also have "\<dots> = mset (map staffMusic ?Y0)"
    by (rule mset_map_partition)
  finally show "mset (map staffMusic (Score_staves (score (doMoveStaves S idx (Some d) np))))
           = mset (map staffMusic (Score_staves (score np)))"
    unfolding stv .
  show "map (\<lambda>p. (part_id p, map staffKey (filter (\<lambda>s. staff_ptr s < next_ptr np) (part_staves p))))
            (parts (score (doMoveStaves S idx (Some d) np)))
          = map (\<lambda>p. (part_id p, map staffKey
                    (filter (\<lambda>s. staff_ptr s \<notin> staff_ptr ` set S) (part_staves p))))
              (parts (score np))"
    unfolding res using parts_keys_filter [OF D(3), of "\<lambda>q. q \<notin> ?P"] by (simp add: comp_def)
  show "list_all (\<lambda>p. part_id p = d \<or> filter (\<lambda>s. next_ptr np \<le> staff_ptr s) (part_staves p) = [])
            (parts (score (doMoveStaves S idx (Some d) np)))"
    unfolding res using D(4) by (simp add: list_all_iff newf3)
  show "mset (map staffMusic (filter (\<lambda>s. next_ptr np \<le> staff_ptr s)
                 (Score_staves (score (doMoveStaves S idx (Some d) np)))))
           = mset (map staffMusic S)"
    unfolding stv newf2 using D(5) .
  show "(doMoveStaves S idx (Some d) np)\<lparr>score := X, next_ptr := Y\<rparr> = np\<lparr>score := X, next_ptr := Y\<rparr>"
    by (simp add: doMoveStaves_def Let_def doMoveStaves_clone_frame)
  show "(score (doMoveStaves S idx (Some d) np))\<lparr>parts := []\<rparr> = (score np)\<lparr>parts := []\<rparr>"
    unfolding res using D(6) by simp
qed

lemma find_Some_mem: "find P xs = Some x \<Longrightarrow> x \<in> set xs \<and> P x"
  by (induction xs) (auto split: if_splits)

lemma staves_subset: "set (staves stavesIds np) \<subseteq> set (Score_staves (score np))"
proof (induction stavesIds)
  case Nil
  then show ?case by (simp add: staves_def)
next
  case (Cons sid rest)
  show ?case
  proof (cases "staff sid np")
    case None
    then show ?thesis using Cons.IH by (simp add: staves_def)
  next
    case (Some st)
    then have "st \<in> set (Score_staves (score np))"
      using find_Some_mem [of "\<lambda>s. staff_id s = sid" "Score_staves (score np)" st]
      by (simp add: staff_def Score_staff_def)
    then show ?thesis using Cons.IH Some by (simp add: staves_def)
  qed
qed

lemma staves_ids:
  "map staff_id (staves stavesIds np) = filter (\<lambda>sid. staff sid np \<noteq> None) stavesIds"
proof (induction stavesIds)
  case Nil
  then show ?case by (simp add: staves_def)
next
  case (Cons sid rest)
  show ?case
  proof (cases "staff sid np")
    case None
    then show ?thesis using Cons.IH by (simp add: staves_def)
  next
    case (Some st)
    then have "staff_id st = sid"
      using find_Some_mem [of "\<lambda>s. staff_id s = sid" "Score_staves (score np)" st]
      by (simp add: staff_def Score_staff_def)
    then show ?thesis using Cons.IH Some by (simp add: staves_def)
  qed
qed

lemma staves_distinct: "distinct stavesIds \<Longrightarrow> distinct (staves stavesIds np)"
proof -
  assume "distinct stavesIds"
  then have "distinct (map staff_id (staves stavesIds np))"
    unfolding staves_ids by simp
  then show ?thesis by (simp add: distinct_map)
qed

lemma staffMusic_eq: "staffMusic = (\<lambda>s. (staff_id s, staff_content s))"
  by (rule ext) (simp add: staffMusic_def)

lemma staffKey_eq: "staffKey = (\<lambda>s. (staff_ptr s, staff_id s, staff_content s))"
  by (rule ext) (simp add: staffKey_def)

text \<open>
  Claim C8. \<^verbatim>\<open>moveStaves\<close> of a non-empty list of distinct staff identifiers to a
  destination staff that exists keeps the number of staves of the score, and keeps the multiset
  of pairs of a staff identifier and the music on the staff. Every part keeps its other staves
  as they were, in their order; the original objects of the moved staves are gone; the new
  staff objects are all in the part of the destination staff, and they carry the identifiers
  and the music of the moved staves, every one once. The operation is one transaction followed
  by the notification that the parts changed. The staff objects of the score are assumed to
  have distinct addresses that the allocator has given out, and the part of the destination
  staff to be a part of the score.
\<close>

theorem moveStaves_preserves_staves:
  assumes nonempty: "sourceStavesIds \<noteq> []"
      and dst: "staff destinationStaffId np = Some destinationStaff"
      and ids: "distinct sourceStavesIds"
      and dist: "distinct (map staff_ptr (Score_staves (score np)))"
      and fresh: "list_all (\<lambda>s. staff_ptr s < next_ptr np) (Score_staves (score np))"
      and dest: "list_ex (\<lambda>p. part_id p = staff_part destinationStaff) (parts (score np))"
  shows "length (Score_staves (score (moveStaves sourceStavesIds destinationStaffId mode np)))
           = length (Score_staves (score np))
     \<and> mset (map (\<lambda>s. (staff_id s, staff_content s))
               (Score_staves (score (moveStaves sourceStavesIds destinationStaffId mode np))))
         = mset (map (\<lambda>s. (staff_id s, staff_content s)) (Score_staves (score np)))
     \<and> map (\<lambda>p. (part_id p, map (\<lambda>s. (staff_ptr s, staff_id s, staff_content s))
                               (filter (\<lambda>s. staff_ptr s < next_ptr np) (part_staves p))))
            (parts (score (moveStaves sourceStavesIds destinationStaffId mode np)))
         = map (\<lambda>p. (part_id p, map (\<lambda>s. (staff_ptr s, staff_id s, staff_content s))
                    (filter (\<lambda>s. staff_ptr s \<notin> staff_ptr ` set (staves sourceStavesIds np))
                       (part_staves p))))
             (parts (score np))
     \<and> list_all (\<lambda>p. part_id p = staff_part destinationStaff
                       \<or> filter (\<lambda>s. next_ptr np \<le> staff_ptr s) (part_staves p) = [])
            (parts (score (moveStaves sourceStavesIds destinationStaffId mode np)))
     \<and> mset (map (\<lambda>s. (staff_id s, staff_content s))
               (filter (\<lambda>s. next_ptr np \<le> staff_ptr s)
                  (Score_staves (score (moveStaves sourceStavesIds destinationStaffId mode np)))))
         = mset (map (\<lambda>s. (staff_id s, staff_content s)) (staves sourceStavesIds np))
     \<and> events (moveStaves sourceStavesIds destinationStaffId mode np)
         = events np @ [PrepareChanges, CommitChanges, PartsChanged]"
proof -
  define S where "S = staves sourceStavesIds np"
  define d where "d = staff_part destinationStaff"
  define idx where "idx = (if mode = Before then Staff_idx destinationStaff (score np)
                           else Staff_idx destinationStaff (score np) + 1)
                          - Score_staffIdx d (score np)"
  define np1 where "np1 = startEdit np"
  define np2 where "np2 = doMoveStaves S idx (Some d) np1"
  have run: "moveStaves sourceStavesIds destinationStaffId mode np = emit PartsChanged (apply_edit np2)"
    using nonempty dst
    by (simp add: moveStaves_def Let_def np2_def np1_def idx_def d_def S_def)
  have s1: "score np1 = score np" "next_ptr np1 = next_ptr np"
           "events np1 = events np @ [PrepareChanges]"
    by (simp_all add: np1_def startEdit_def emit_def)
  have sub: "set S \<subseteq> set (Score_staves (score np1))"
    unfolding s1 S_def by (rule staves_subset)
  have dS: "distinct S" unfolding S_def using ids by (rule staves_distinct)
  note E = doMoveStaves_effect [where np=np1 and d=d and S=S and idx=idx, unfolded s1, OF fresh dest [folded d_def]
             sub [unfolded s1] dS dist, folded np2_def]
  have sc: "score (emit PartsChanged (apply_edit np2)) = score np2"
    by (simp add: emit_def apply_edit_def)
  have "events (np2\<lparr>score := score np, next_ptr := 0\<rparr>) = events (np1\<lparr>score := score np, next_ptr := 0\<rparr>)"
    using E(5) [where X="score np" and Y=0] by simp
  then have ev: "events (emit PartsChanged (apply_edit np2))
      = events np @ [PrepareChanges, CommitChanges, PartsChanged]"
    by (simp add: emit_def apply_edit_def s1)
  have len: "length (Score_staves (score np2)) = length (Score_staves (score np))"
    using arg_cong [OF E(1), of size] by simp
  show ?thesis
    unfolding run sc ev
    using len E(1,2,3,4)
    unfolding staffMusic_eq staffKey_eq S_def d_def
    by simp
qed


text \<open>
  The theorem on a score of a violin part with the staff \<open>S1\<close> and a flute part with the staff
  \<open>S2\<close>: moving \<open>S1\<close> after \<open>S2\<close> leaves the violin part without staves and the flute part
  with \<open>S2\<close> followed by a new staff object for \<open>S1\<close> with its two notes.
\<close>

theorem moveStaves_preserves_staves_witness:
  "[''S1''] \<noteq> []
   \<and> staff ''S2'' (ex_notation (ex_score [ex_violin_part, ex_flute_part]))
       = Some (ex_staff 2 ''S2'' ''P2'' [72])
   \<and> distinct [''S1'']
   \<and> distinct (map staff_ptr (Score_staves (score (ex_notation (ex_score [ex_violin_part, ex_flute_part])))))
   \<and> list_all (\<lambda>s. staff_ptr s < next_ptr (ex_notation (ex_score [ex_violin_part, ex_flute_part])))
        (Score_staves (score (ex_notation (ex_score [ex_violin_part, ex_flute_part]))))
   \<and> list_ex (\<lambda>p. part_id p = staff_part (ex_staff 2 ''S2'' ''P2'' [72]))
        (parts (score (ex_notation (ex_score [ex_violin_part, ex_flute_part]))))
   \<and> length (Score_staves (score (moveStaves [''S1''] ''S2'' After
                (ex_notation (ex_score [ex_violin_part, ex_flute_part])))))
       = length (Score_staves (score (ex_notation (ex_score [ex_violin_part, ex_flute_part]))))
   \<and> mset (map (\<lambda>s. (staff_id s, staff_content s))
             (Score_staves (score (moveStaves [''S1''] ''S2'' After
                (ex_notation (ex_score [ex_violin_part, ex_flute_part]))))))
       = mset (map (\<lambda>s. (staff_id s, staff_content s))
             (Score_staves (score (ex_notation (ex_score [ex_violin_part, ex_flute_part])))))
   \<and> map (\<lambda>p. (part_id p, map (\<lambda>s. (staff_ptr s, staff_id s, staff_content s)) (part_staves p)))
         (parts (score (moveStaves [''S1''] ''S2'' After
                (ex_notation (ex_score [ex_violin_part, ex_flute_part])))))
       = [(''P1'', []), (''P2'', [(2, ''S2'', [72]), (100, ''S1'', [60, 62])])]"
proof -
  let ?np = "ex_notation (ex_score [ex_violin_part, ex_flute_part])"
  have h1: "[''S1''] \<noteq> []" by simp
  have h2: "staff ''S2'' ?np = Some (ex_staff 2 ''S2'' ''P2'' [72])" by code_simp
  have h3: "distinct [''S1'']" by simp
  have h4: "distinct (map staff_ptr (Score_staves (score ?np)))" by code_simp
  have h5: "list_all (\<lambda>s. staff_ptr s < next_ptr ?np) (Score_staves (score ?np))" by code_simp
  have h6: "list_ex (\<lambda>p. part_id p = staff_part (ex_staff 2 ''S2'' ''P2'' [72])) (parts (score ?np))"
    by code_simp
  note T = moveStaves_preserves_staves [OF h1 h2 h3 h4 h5 h6, of After]
  have r: "map (\<lambda>p. (part_id p, map (\<lambda>s. (staff_ptr s, staff_id s, staff_content s)) (part_staves p)))
         (parts (score (moveStaves [''S1''] ''S2'' After ?np)))
       = [(''P1'', []), (''P2'', [(2, ''S2'', [72]), (100, ''S1'', [60, 62])])]"
    by code_simp
  show ?thesis using h1 h2 h3 h4 h5 h6 T r by blast
qed

subsection \<open>Moving instruments onto occupied ticks\<close>

text \<open>
  Claim C7 says that an incoming instrument whose tick is occupied in the destination part gets
  its tick bumped by one, that nothing is replaced, and that the result has no tick collision.
  \<^verbatim>\<open>doInsertInstruments\<close> appends, for an occupied tick, the last tick of the list plus one, and
  the list is sorted only after the loop. In the first example the viola (tick 2) and the oboe
  (tick 3) of \<open>P1\<close> are moved before the clarinet (tick 3) of \<open>P2\<close>: tick 2 is free and is
  appended, so for the occupied tick 3 the source appends \<open>2 + 1 = 3\<close> again; the oboe and the
  clarinet are both set at tick 3, the clarinet replaces the oboe, and the oboe is in no part
  afterwards. In the second example one instrument is moved: the viola (tick 2) before the
  clarinet (tick 2) of a part with an oboe at tick 7. The tick appended is \<open>7 + 1 = 8\<close>, not
  \<open>2 + 1\<close>; the viola takes tick 2 and the clarinet and the oboe move on to the ticks 7 and 8.
\<close>

theorem moveInstruments_tick_collision:
  "insertFractions [2, 3] [-1, 3] = Inr [-1, 3, 2, 3]
   \<and> map_sum id (\<lambda>np. map (\<lambda>p. (part_id p, part_instruments p)) (parts (score np)))
        (moveInstruments [''viola'', ''oboe''] ''P1'' ''P2'' ''clarinet'' Before
           (ex_notation (ex_score [ex_three_part, ex_winds_part])))
       = Inr [(''P1'', [(-1, ex_violin)]),
              (''P2'', [(-1, ex_flute), (2, ex_viola), (3, ex_clarinet)])]
   \<and> insertFractions [2] [-1, 2, 7] = Inr [-1, 2, 7, 8]
   \<and> map_sum id (\<lambda>np. map (\<lambda>p. (part_id p, part_instruments p)) (parts (score np)))
        (moveInstruments [''viola''] ''P1'' ''P2'' ''clarinet'' Before
           (ex_notation (ex_score [ex_doubling_part, ex_late_oboe_part])))
       = Inr [(''P1'', [(-1, ex_violin)]),
              (''P2'', [(-1, ex_flute), (2, ex_viola), (7, ex_clarinet), (8, ex_oboe)])]"
  by code_simp

end
